theory Spec2Isabelle
  imports Main
begin

section \<open>Client-side validation of the forms of a page\<close>

text \<open>
  The repository holds one module, validateForm.ts, in three revisions. The file
  src/utils/validateForm.ts contains two of them, one after the other, and part_000
  is an earlier one. This theory models the first revision of validateForm.ts (its
  lines 1 to 250): the four rules, the error presenter, \<open>validateInput\<close>,
  \<open>validateForm\<close> and the handlers that \<open>validateForms\<close> registers for focus,
  blur and submission. Of the other
  two it models what differs in them and is the subject of a property below: the
  phone rule of the second document of validateForm.ts, and the length rule, the phone
  rule and \<open>validateInput\<close> of part_000.
\<close>

section \<open>JavaScript strings and numbers\<close>

text \<open>
  A JavaScript string is a sequence of UTF-16 code units, and \<^verbatim>\<open>length\<close> counts code
  units. A code unit is modelled by its number; \<open>utf16\<close> turns an ASCII literal of the
  source into its code units.
\<close>

type_synonym jschar = nat
type_synonym jsstring = "jschar list"

definition utf16 :: "string \<Rightarrow> jsstring" where
  "utf16 s = map of_char s"

text \<open>
  The characters that \<^verbatim>\<open>String.prototype.trim\<close>, the regular expression class
  \<^verbatim>\<open>\s\<close> and the leading part of \<^verbatim>\<open>parseInt\<close> treat as white space: WhiteSpace
  (TAB, VT, FF, ZWNBSP and the space separators) and LineTerminator (LF, CR, LS, PS).
\<close>

definition is_space :: "jschar \<Rightarrow> bool" where
  "is_space c =
     (c \<in> {9, 10, 11, 12, 13, 32, 160, 5760, 8232, 8233, 8239, 8287, 12288, 65279}
      \<or> (8192 \<le> c \<and> c \<le> 8202))"

text \<open>The class \<^verbatim>\<open>\d\<close> (and \<^verbatim>\<open>[0-9]\<close>): the ten ASCII digits.\<close>

definition is_digit :: "jschar \<Rightarrow> bool" where
  "is_digit c = (48 \<le> c \<and> c \<le> 57)"

definition trim :: "jsstring \<Rightarrow> jsstring" where
  "trim v = rev (dropWhile is_space (rev (dropWhile is_space v)))"

text \<open>
  \<^verbatim>\<open>str.replace(/C/g, rep)\<close> for a regular expression that is one character class
  \<open>C\<close>: every code unit of the class is replaced by \<open>rep\<close>.
\<close>

definition replace_all :: "(jschar \<Rightarrow> bool) \<Rightarrow> jsstring \<Rightarrow> jsstring \<Rightarrow> jsstring" where
  "replace_all cls rep v = concat (map (\<lambda>c. if cls c then rep else [c]) v)"

text \<open>
  The numbers the validator computes with are string lengths and the result of
  \<^verbatim>\<open>parseInt\<close>: an integer or NaN. (Beyond \<open>2^53\<close> \<^verbatim>\<open>parseInt\<close> rounds to a double;
  rounding is monotone and a length is below \<open>2^53\<close>, so comparing a length with the
  exact integer gives the result of the comparison in the source.) Every comparison
  with NaN is false.
\<close>

datatype jsnum = NaN | Num int

fun js_gt :: "jsnum \<Rightarrow> jsnum \<Rightarrow> bool" where
  "js_gt (Num a) (Num b) = (b < a)"
| "js_gt _ _ = False"

fun js_ge :: "jsnum \<Rightarrow> jsnum \<Rightarrow> bool" where
  "js_ge (Num a) (Num b) = (b \<le> a)"
| "js_ge _ _ = False"

definition js_length :: "jsstring \<Rightarrow> jsnum" where
  "js_length v = Num (int (length v))"

text \<open>
  \<^verbatim>\<open>parseInt(str, 10)\<close>: leading white space is skipped, one sign is read, then the
  longest run of decimal digits; no digit gives NaN, and what follows the digits is
  ignored.
\<close>

definition digits_value :: "jsstring \<Rightarrow> nat" where
  "digits_value ds = foldl (\<lambda>a c. 10 * a + (c - 48)) 0 ds"

definition parseInt10 :: "jsstring \<Rightarrow> jsnum" where
  "parseInt10 str =
     (let S = dropWhile is_space str;
          neg = (case S of [] \<Rightarrow> False | c # _ \<Rightarrow> c = 45);
          S' = (case S of [] \<Rightarrow> [] | c # cs \<Rightarrow> if c = 43 \<or> c = 45 then cs else S);
          Z = takeWhile is_digit S'
      in if Z = [] then NaN
         else Num (if neg then - int (digits_value Z) else int (digits_value Z)))"

section \<open>Regular expressions\<close>

text \<open>
  The regular expressions of the source use character classes, concatenation,
  \<^verbatim>\<open>?\<close>, \<^verbatim>\<open>+\<close> and bounded repetition, anchored at both ends, so that
  \<^verbatim>\<open>test\<close> decides whether the whole string belongs to the expression's language.
  \<open>accepts\<close> is that language; \<open>matches\<close> decides it by derivatives.
\<close>

datatype rexp =
    Fail
  | Empty
  | Class "jschar \<Rightarrow> bool"
  | Then rexp rexp
  | Or rexp rexp
  | Many rexp

inductive accepts :: "rexp \<Rightarrow> jsstring \<Rightarrow> bool" where
  acc_Empty: "accepts Empty []"
| acc_Class: "p c \<Longrightarrow> accepts (Class p) [c]"
| acc_Then: "accepts r u \<Longrightarrow> accepts q v \<Longrightarrow> accepts (Then r q) (u @ v)"
| acc_OrL: "accepts r w \<Longrightarrow> accepts (Or r q) w"
| acc_OrR: "accepts q w \<Longrightarrow> accepts (Or r q) w"
| acc_Many0: "accepts (Many r) []"
| acc_ManyS: "accepts r u \<Longrightarrow> accepts (Many r) v \<Longrightarrow> accepts (Many r) (u @ v)"

fun nullable :: "rexp \<Rightarrow> bool" where
  "nullable Fail = False"
| "nullable Empty = True"
| "nullable (Class p) = False"
| "nullable (Then r q) = (nullable r \<and> nullable q)"
| "nullable (Or r q) = (nullable r \<or> nullable q)"
| "nullable (Many r) = True"

fun deriv :: "jschar \<Rightarrow> rexp \<Rightarrow> rexp" where
  "deriv c Fail = Fail"
| "deriv c Empty = Fail"
| "deriv c (Class p) = (if p c then Empty else Fail)"
| "deriv c (Then r q) =
     (if nullable r then Or (Then (deriv c r) q) (deriv c q) else Then (deriv c r) q)"
| "deriv c (Or r q) = Or (deriv c r) (deriv c q)"
| "deriv c (Many r) = Then (deriv c r) (Many r)"

fun matches :: "rexp \<Rightarrow> jsstring \<Rightarrow> bool" where
  "matches r [] = nullable r"
| "matches r (c # w) = matches (deriv c r) w"

definition Chr :: "jschar \<Rightarrow> rexp" where
  "Chr a = Class (\<lambda>c. c = a)"

definition Opt :: "rexp \<Rightarrow> rexp" where
  "Opt r = Or r Empty"

definition Plus :: "rexp \<Rightarrow> rexp" where
  "Plus r = Then r (Many r)"

section \<open>The document\<close>

text \<open>
  The elements of a page are held in a store, listed in document order; a reference
  is an index of the store. Each element carries the number \<open>nsub\<close> of the elements
  inside it, which are the \<open>nsub\<close> elements that follow it in the store. An element
  has its tag name (lower case), its content attributes other than \<^verbatim>\<open>class\<close>, its
  class list, the \<^verbatim>\<open>value\<close> and \<^verbatim>\<open>checked\<close> properties of a form control, and its
  text.

  A script can take elements out of the page and still hold references to them, so the
  store keeps them: an element whose flag \<open>removed\<close> is set has been removed from its
  parent. It keeps the elements inside it, but it and they are no longer descendants
  of the elements that held it.

  The flag \<open>dirty\<close> is the dirty value flag of a text area: it is set once the user
  or a script has changed the value. Until then the value of a text area is its text.
\<close>

record element =
  tagName :: string
  attributes :: "string \<rightharpoonup> jsstring"
  classList :: "string set"
  val :: jsstring
  checked :: bool
  textContent :: jsstring
  nsub :: nat
  removed :: bool
  dirty :: bool

type_synonym dom = "element list"
type_synonym ref = nat

text \<open>
  \<open>attached s r i\<close>: no element from below \<open>r\<close> down to \<open>i\<close> that holds \<open>i\<close>, or
  is \<open>i\<close>, has been removed. The descendants of \<open>r\<close> are the elements inside it
  that are still attached to it, and its children are the descendants that no element
  between holds.
\<close>

definition attached :: "dom \<Rightarrow> ref \<Rightarrow> ref \<Rightarrow> bool" where
  "attached s r i =
     (\<not> list_ex (\<lambda>j. i \<le> j + nsub (s ! j) \<and> removed (s ! j)) [Suc r ..< Suc i])"

definition descendants :: "dom \<Rightarrow> ref \<Rightarrow> ref list" where
  "descendants s r =
     (if r < length s
      then filter (attached s r) [Suc r ..< min (length s) (Suc (r + nsub (s ! r)))]
      else [])"

definition children :: "dom \<Rightarrow> ref \<Rightarrow> ref list" where
  "children s r =
     filter (\<lambda>i. \<not> list_ex (\<lambda>j. i \<le> j + nsub (s ! j)) [Suc r ..< i]) (descendants s r)"

text \<open>
  Every selector of the source is a list of compound selectors on one element (tag,
  class, attribute), so a selector is a predicate on elements. \<open>querySelectorAll\<close>
  returns the matching descendants in document order, \<open>querySelector\<close> the first
  of them or null.
\<close>

definition querySelectorAll :: "dom \<Rightarrow> ref \<Rightarrow> (element \<Rightarrow> bool) \<Rightarrow> ref list" where
  "querySelectorAll s r sel = filter (\<lambda>j. sel (s ! j)) (descendants s r)"

definition querySelector :: "dom \<Rightarrow> ref \<Rightarrow> (element \<Rightarrow> bool) \<Rightarrow> ref option" where
  "querySelector s r sel = (case querySelectorAll s r sel of [] \<Rightarrow> None | j # _ \<Rightarrow> Some j)"

definition hasAttribute :: "element \<Rightarrow> string \<Rightarrow> bool" where
  "hasAttribute e a = (attributes e a \<noteq> None)"

definition getAttribute :: "element \<Rightarrow> string \<Rightarrow> jsstring option" where
  "getAttribute e a = attributes e a"

text \<open>\<^verbatim>\<open>x || d\<close> on a string or null: null and the empty string are falsy.\<close>

definition or_else :: "jsstring option \<Rightarrow> jsstring \<Rightarrow> jsstring" where
  "or_else x d = (case x of None \<Rightarrow> d | Some v \<Rightarrow> if v = [] then d else v)"

definition ascii_lower :: "jschar \<Rightarrow> jschar" where
  "ascii_lower c = (if 65 \<le> c \<and> c \<le> 90 then c + 32 else c)"

text \<open>
  The \<^verbatim>\<open>type\<close> attribute is an enumerated attribute: its keywords are matched
  ASCII case-insensitively, by the \<^verbatim>\<open>type\<close> property of an input element as by an
  attribute selector of an HTML document. \<open>input_type_is e t\<close> is
  \<^verbatim>\<open>e.type === t\<close> for a keyword \<open>t\<close> of the input element other than the default
  \<^verbatim>\<open>text\<close>; the \<^verbatim>\<open>type\<close> of a textarea is \<^verbatim>\<open>textarea\<close>.
\<close>

definition type_attr_is :: "element \<Rightarrow> string \<Rightarrow> bool" where
  "type_attr_is e t =
     (case attributes e ''type'' of None \<Rightarrow> False | Some v \<Rightarrow> map ascii_lower v = utf16 t)"

definition input_type_is :: "element \<Rightarrow> string \<Rightarrow> bool" where
  "input_type_is e t = (tagName e = ''input'' \<and> type_attr_is e t)"

text \<open>The selectors of the source.\<close>

definition sel_class :: "string \<Rightarrow> element \<Rightarrow> bool" where
  "sel_class c e = (c \<in> classList e)"

definition sel_attr :: "string \<Rightarrow> element \<Rightarrow> bool" where
  "sel_attr a e = hasAttribute e a"

definition sel_field :: "element \<Rightarrow> bool" where
  "sel_field e = (tagName e = ''input'' \<or> tagName e = ''textarea'')"

definition sel_submit :: "element \<Rightarrow> bool" where
  "sel_submit e =
     ((tagName e = ''input'' \<or> tagName e = ''button'') \<and> type_attr_is e ''submit'')"

text \<open>
  The writes of the source. Each changes one element of the store, except the
  assignment of \<^verbatim>\<open>textContent\<close>, which replaces all the children of the element by
  the text: every child is removed, then the text is set. The text of a text area
  whose value has not been changed is its value, with every line break (CR LF, or CR
  alone) read as LF.
\<close>

definition modify :: "ref \<Rightarrow> (element \<Rightarrow> element) \<Rightarrow> dom \<Rightarrow> dom" where
  "modify r f s = (if r < length s then s[r := f (s ! r)] else s)"

definition classList_add :: "ref \<Rightarrow> string \<Rightarrow> dom \<Rightarrow> dom" where
  "classList_add r c s = modify r (\<lambda>e. e\<lparr>classList := insert c (classList e)\<rparr>) s"

definition classList_remove :: "ref \<Rightarrow> string \<Rightarrow> dom \<Rightarrow> dom" where
  "classList_remove r c s = modify r (\<lambda>e. e\<lparr>classList := classList e - {c}\<rparr>) s"

definition setAttribute :: "ref \<Rightarrow> string \<Rightarrow> jsstring \<Rightarrow> dom \<Rightarrow> dom" where
  "setAttribute r a v s = modify r (\<lambda>e. e\<lparr>attributes := (attributes e)(a \<mapsto> v)\<rparr>) s"

definition remove_child :: "ref \<Rightarrow> dom \<Rightarrow> dom" where
  "remove_child c s = modify c (\<lambda>e. e\<lparr>removed := True\<rparr>) s"

fun normalize_newlines :: "jsstring \<Rightarrow> jsstring" where
  "normalize_newlines (c # d # v) =
     (if c = 13 \<and> d = 10 then 10 # normalize_newlines v
      else if c = 13 then 10 # normalize_newlines (d # v)
      else c # normalize_newlines (d # v))"
| "normalize_newlines [c] = [if c = 13 then 10 else c]"
| "normalize_newlines [] = []"

definition set_textContent :: "ref \<Rightarrow> jsstring \<Rightarrow> dom \<Rightarrow> dom" where
  "set_textContent r v s =
     modify r
       (\<lambda>e. e\<lparr>textContent := v,
              val := (if tagName e = ''textarea'' \<and> \<not> dirty e then normalize_newlines v
                      else val e)\<rparr>)
       (fold remove_child (children s r) s)"

section \<open>The rules of a field (validateForm.ts)\<close>

definition validateLength :: "element \<Rightarrow> jsnum \<Rightarrow> bool" where
  "validateLength input minLength = js_gt (js_length (trim (val input))) minLength"

definition validatePhone :: "element \<Rightarrow> bool" where
  "validatePhone input =
     (let phoneDigits = replace_all (\<lambda>c. \<not> is_digit c) [] (val input)
      in js_ge (js_length phoneDigits) (Num 10))"

text \<open>\<^verbatim>\<open>/^[^\s@]+@[^\s@]+\.[^\s@]+$/\<close>\<close>

definition emailRegex :: rexp where
  "emailRegex =
     (let other = Class (\<lambda>c. \<not> (is_space c \<or> c = 64)) in
      Then (Plus other) (Then (Chr 64) (Then (Plus other) (Then (Chr 46) (Plus other)))))"

definition validateEmail :: "element \<Rightarrow> bool" where
  "validateEmail input = matches emailRegex (trim (val input))"

definition validateCheckbox :: "element \<Rightarrow> bool" where
  "validateCheckbox input = checked input"

subsection \<open>The rules that differ in the other revisions\<close>

text \<open>
  The second document of validateForm.ts has the same length and email rules; its
  phone rule asks for five digits.
\<close>

definition validatePhone_doc2 :: "element \<Rightarrow> bool" where
  "validatePhone_doc2 input =
     (let phoneDigits = replace_all (\<lambda>c. \<not> is_digit c) [] (val input)
      in js_ge (js_length phoneDigits) (Num 5))"

text \<open>part_000 compares the length with \<^verbatim>\<open>>=\<close> and matches a phone format.\<close>

definition validateLength_part000 :: "element \<Rightarrow> jsnum \<Rightarrow> bool" where
  "validateLength_part000 input minLength = js_ge (js_length (trim (val input))) minLength"

text \<open>\<^verbatim>\<open>/^[+]?[(]?[0-9]{3}[)]?[-\s.]?[0-9]{3}[-\s.]?[0-9]{4,6}$/\<close>\<close>

definition phoneRegex_part000 :: rexp where
  "phoneRegex_part000 =
     (let d = Class is_digit;
          sep = Opt (Class (\<lambda>c. c = 45 \<or> is_space c \<or> c = 46)) in
      Then (Opt (Chr 43)) (Then (Opt (Chr 40)) (Then d (Then d (Then d
      (Then (Opt (Chr 41)) (Then sep (Then d (Then d (Then d
      (Then sep (Then d (Then d (Then d (Then d (Then (Opt d) (Opt d)))))))))))))))))"

definition validatePhone_part000 :: "element \<Rightarrow> bool" where
  "validatePhone_part000 input = matches phoneRegex_part000 (trim (val input))"

section \<open>The error presenter\<close>

definition showError :: "dom \<Rightarrow> ref \<Rightarrow> ref \<Rightarrow> dom" where
  "showError s wrapper input =
     (let s = classList_add input ''is-error'' s in
      case querySelector s wrapper (sel_class ''input-error-label'') of
        None \<Rightarrow> s
      | Some errorLabel \<Rightarrow>
          let s = (case querySelector s errorLabel (sel_attr ''input-error-text'') of
                     None \<Rightarrow> s
                   | Some errorTextElement \<Rightarrow>
                       (case getAttribute (s ! errorTextElement) ''input-error-text'' of
                          None \<Rightarrow> s
                        | Some customErrorText \<Rightarrow>
                            if customErrorText \<noteq> []
                            then set_textContent errorTextElement customErrorText s
                            else s))
          in setAttribute errorLabel ''style'' (utf16 ''display: flex;'') s)"

definition hideError :: "dom \<Rightarrow> ref \<Rightarrow> ref \<Rightarrow> dom" where
  "hideError s wrapper input =
     (let s = classList_remove input ''is-error'' s in
      case querySelector s wrapper (sel_class ''input-error-label'') of
        None \<Rightarrow> s
      | Some errorLabel \<Rightarrow> setAttribute errorLabel ''style'' (utf16 ''display: none;'') s)"

section \<open>Validating one field wrapper\<close>

text \<open>
  \<open>validateInput\<close> returns its verdict and the document it leaves. The four rules
  are four independent conditionals that assign the same variable, in the order of
  the source.
\<close>

definition validateInput :: "dom \<Rightarrow> ref \<Rightarrow> bool \<Rightarrow> bool \<Rightarrow> bool \<times> dom" where
  "validateInput s wrapper showErrors forceShowErrors =
     (case querySelector s wrapper sel_field of
        None \<Rightarrow> (True, s)
      | Some input \<Rightarrow>
          let checkbox = querySelector s wrapper (sel_class ''w-checkbox-input'');
              isValid = True;
              isValid =
                (if hasAttribute (s ! input) ''input-validation-length''
                 then validateLength (s ! input)
                        (parseInt10
                           (or_else (getAttribute (s ! input) ''input-validation-length'')
                              (utf16 ''0'')))
                 else isValid);
              isValid =
                (if hasAttribute (s ! input) ''input-validation-phone''
                 then validatePhone (s ! input) else isValid);
              isValid =
                (if input_type_is (s ! input) ''email''
                 then validateEmail (s ! input) else isValid);
              (isValid, s) =
                (if hasAttribute (s ! input) ''input-validation-checkbox''
                 then
                   (let isValid = validateCheckbox (s ! input) in
                    (isValid,
                     case checkbox of
                       None \<Rightarrow> s
                     | Some box \<Rightarrow>
                         if showErrors
                            \<and> (hasAttribute (s ! input) ''data-touched'' \<or> forceShowErrors)
                            \<and> \<not> isValid
                         then classList_add box ''is-error'' s
                         else classList_remove box ''is-error'' s))
                 else (isValid, s));
              s =
                (if showErrors \<and> (hasAttribute (s ! input) ''data-touched'' \<or> forceShowErrors)
                 then
                   (if \<not> isValid
                    then
                      (if input_type_is (s ! input) ''checkbox''
                       then showError s wrapper (case checkbox of Some box \<Rightarrow> box | None \<Rightarrow> input)
                       else showError s wrapper input)
                    else
                      (if input_type_is (s ! input) ''checkbox''
                       then hideError s wrapper (case checkbox of Some box \<Rightarrow> box | None \<Rightarrow> input)
                       else hideError s wrapper input))
                 else s)
          in (isValid, s))"

text \<open>part_000: no touched flag and no forced display; \<open>showErrors\<close> alone decides.\<close>

definition validateInput_part000 :: "dom \<Rightarrow> ref \<Rightarrow> bool \<Rightarrow> bool \<times> dom" where
  "validateInput_part000 s wrapper showErrors =
     (case querySelector s wrapper sel_field of
        None \<Rightarrow> (True, s)
      | Some input \<Rightarrow>
          let checkbox = querySelector s wrapper (sel_class ''w-checkbox-input'');
              isValid = True;
              isValid =
                (if hasAttribute (s ! input) ''input-validation-length''
                 then validateLength_part000 (s ! input)
                        (parseInt10
                           (or_else (getAttribute (s ! input) ''input-validation-length'')
                              (utf16 ''0'')))
                 else isValid);
              isValid =
                (if hasAttribute (s ! input) ''input-validation-phone''
                 then validatePhone_part000 (s ! input) else isValid);
              isValid =
                (if input_type_is (s ! input) ''email''
                 then validateEmail (s ! input) else isValid);
              (isValid, s) =
                (if hasAttribute (s ! input) ''input-validation-checkbox''
                 then
                   (let isValid = validateCheckbox (s ! input) in
                    (isValid,
                     case checkbox of
                       None \<Rightarrow> s
                     | Some box \<Rightarrow>
                         if showErrors \<and> \<not> isValid
                         then classList_add box ''is-error'' s
                         else classList_remove box ''is-error'' s))
                 else (isValid, s));
              s =
                (if showErrors
                 then
                   (if \<not> isValid
                    then
                      (if input_type_is (s ! input) ''checkbox''
                       then showError s wrapper (case checkbox of Some box \<Rightarrow> box | None \<Rightarrow> input)
                       else showError s wrapper input)
                    else
                      (if input_type_is (s ! input) ''checkbox''
                       then hideError s wrapper (case checkbox of Some box \<Rightarrow> box | None \<Rightarrow> input)
                       else hideError s wrapper input))
                 else s)
          in (isValid, s))"

section \<open>Validating a form\<close>

text \<open>
  The \<^verbatim>\<open>forEach\<close> over the wrappers: the node list is computed before the loop, and
  each wrapper is validated in the document the wrappers before it have left.
\<close>

fun validateEach :: "ref list \<Rightarrow> bool \<Rightarrow> bool \<Rightarrow> bool \<times> dom \<Rightarrow> bool \<times> dom" where
  "validateEach [] showErrors forceShowErrors (isFormValid, s) = (isFormValid, s)"
| "validateEach (wrapper # rest) showErrors forceShowErrors (isFormValid, s) =
     (let (inputValid, s) = validateInput s wrapper showErrors forceShowErrors
      in validateEach rest showErrors forceShowErrors
           (if \<not> inputValid then False else isFormValid, s))"

definition validateForm :: "dom \<Rightarrow> ref \<Rightarrow> bool \<Rightarrow> bool \<Rightarrow> bool \<times> dom" where
  "validateForm s form showErrors forceShowErrors =
     (let inputWrappers = querySelectorAll s form (sel_class ''input-wrapper'');
          (isFormValid, s) = validateEach inputWrappers showErrors forceShowErrors (True, s);
          submitButton = querySelector s form sel_submit;
          s = (case submitButton of
                 None \<Rightarrow> s
               | Some button \<Rightarrow>
                   if isFormValid then classList_remove button ''is-disabled'' s
                   else classList_add button ''is-disabled'' s)
      in (isFormValid, s))"

section \<open>The event handlers of validateForms\<close>

text \<open>
  The handlers that \<open>validateForms\<close> registers for one form, as functions of the
  document at the time of the event. (The marker attributes of a field are never
  written, so reading them at the event is reading them at registration.) The handler
  of an input event ends in the two passes of the handler of a blur event.
\<close>

definition on_focus :: "dom \<Rightarrow> ref \<Rightarrow> dom" where
  "on_focus s input = setAttribute input ''data-touched'' (utf16 ''true'') s"

definition on_blur :: "dom \<Rightarrow> ref \<Rightarrow> ref \<Rightarrow> dom" where
  "on_blur s form wrapper =
     (let s = snd (validateInput s wrapper True False)
      in snd (validateForm s form True False))"

text \<open>
  The submit handler: what it does to the event, and the element it scrolls into
  view, are part of its result.
\<close>

record submit_event =
  defaultPrevented :: bool
  propagationStopped :: bool

definition on_submit :: "dom \<Rightarrow> ref \<Rightarrow> dom \<times> submit_event \<times> ref option" where
  "on_submit s form =
     (let e = \<lparr>defaultPrevented = False, propagationStopped = False\<rparr>;
          (isValid, s) = validateForm s form True True
      in if \<not> isValid
         then
           (let e = e\<lparr>defaultPrevented := True\<rparr>;
                e = e\<lparr>propagationStopped := True\<rparr>;
                firstError = querySelector s form (sel_class ''is-error'')
            in (s, e, firstError))
         else (s, e, None))"

section \<open>Notions of the specification and of the proofs\<close>

text \<open>
  The definitions of this section are not functions of the repository: they state what
  the specification talks about, or name a part of a function for the proofs, and the
  theorems compare the code with them.
\<close>

text \<open>The number of decimal digits of a value.\<close>

definition digit_count :: "jsstring \<Rightarrow> nat" where
  "digit_count v = length (filter is_digit v)"

text \<open>
  A numeric attribute value, as \<^verbatim>\<open>parseInt\<close> sees it: after white space and one
  optional sign comes a decimal digit.
\<close>

definition has_leading_digit :: "jsstring \<Rightarrow> bool" where
  "has_leading_digit v =
     (case dropWhile is_space v of
        [] \<Rightarrow> False
      | c # cs \<Rightarrow>
          if c = 43 \<or> c = 45 then (case cs of [] \<Rightarrow> False | d # _ \<Rightarrow> is_digit d)
          else is_digit c)"

text \<open>
  The four rules, the constraint that declares each, and the rule that decides when
  several are declared: the last in the order length, phone, email, checkbox.
\<close>

datatype rule = LengthRule | PhoneRule | EmailRule | CheckboxRule

fun declared :: "element \<Rightarrow> rule \<Rightarrow> bool" where
  "declared e LengthRule = hasAttribute e ''input-validation-length''"
| "declared e PhoneRule = hasAttribute e ''input-validation-phone''"
| "declared e EmailRule = input_type_is e ''email''"
| "declared e CheckboxRule = hasAttribute e ''input-validation-checkbox''"

fun rule_verdict :: "rule \<Rightarrow> element \<Rightarrow> bool" where
  "rule_verdict LengthRule e =
     validateLength e
       (parseInt10 (or_else (getAttribute e ''input-validation-length'') (utf16 ''0'')))"
| "rule_verdict PhoneRule e = validatePhone e"
| "rule_verdict EmailRule e = validateEmail e"
| "rule_verdict CheckboxRule e = validateCheckbox e"

definition selected_rule :: "element \<Rightarrow> rule option" where
  "selected_rule e =
     (if declared e CheckboxRule then Some CheckboxRule
      else if declared e EmailRule then Some EmailRule
      else if declared e PhoneRule then Some PhoneRule
      else if declared e LengthRule then Some LengthRule
      else None)"

definition field_verdict :: "element \<Rightarrow> bool" where
  "field_verdict e = (case selected_rule e of None \<Rightarrow> True | Some r \<Rightarrow> rule_verdict r e)"

text \<open>The verdict of a wrapper is that of its field; the verdict of a form their conjunction.\<close>

definition wrapper_verdict :: "dom \<Rightarrow> ref \<Rightarrow> bool" where
  "wrapper_verdict s w =
     (case querySelector s w sel_field of None \<Rightarrow> True | Some input \<Rightarrow> field_verdict (s ! input))"

definition form_verdict :: "dom \<Rightarrow> ref \<Rightarrow> bool" where
  "form_verdict s form =
     list_all (wrapper_verdict s) (querySelectorAll s form (sel_class ''input-wrapper''))"

text \<open>
  What the validator changes of an element that keeps its children and its value: the
  inline style, the classes \<^verbatim>\<open>is-error\<close> and \<^verbatim>\<open>is-disabled\<close>, and the text. The
  rest is the static part of the element.
\<close>

type_synonym static_part =
  "string \<times> (string \<rightharpoonup> jsstring) \<times> string set \<times> jsstring \<times> bool \<times> nat \<times> bool \<times> bool"

definition static :: "element \<Rightarrow> static_part" where
  "static e = (tagName e, (attributes e)(''style'' := None),
               classList e - {''is-error'', ''is-disabled''}, val e, checked e, nsub e,
               removed e, dirty e)"

definition frame :: "dom \<Rightarrow> static_part list" where
  "frame s = map static s"

definition static_sel :: "(element \<Rightarrow> bool) \<Rightarrow> bool" where
  "static_sel sel = (\<forall>e e'. static e = static e' \<longrightarrow> sel e = sel e')"

text \<open>
  The steps of \<open>validateInput\<close>, named for the proofs: the condition under which it
  presents anything, the element that receives the error class, and its write to the
  box of a field marked as a checkbox.
\<close>

definition display_gate :: "dom \<Rightarrow> ref \<Rightarrow> bool \<Rightarrow> bool \<Rightarrow> bool" where
  "display_gate s input showErrors forceShowErrors =
     (showErrors \<and> (hasAttribute (s ! input) ''data-touched'' \<or> forceShowErrors))"

definition error_target :: "dom \<Rightarrow> ref \<Rightarrow> ref \<Rightarrow> ref" where
  "error_target s w input =
     (if input_type_is (s ! input) ''checkbox''
      then (case querySelector s w (sel_class ''w-checkbox-input'') of
              Some box \<Rightarrow> box | None \<Rightarrow> input)
      else input)"

definition checkbox_step :: "dom \<Rightarrow> ref \<Rightarrow> ref \<Rightarrow> bool \<Rightarrow> dom" where
  "checkbox_step s w input show =
     (if hasAttribute (s ! input) ''input-validation-checkbox''
      then (case querySelector s w (sel_class ''w-checkbox-input'') of
              None \<Rightarrow> s
            | Some box \<Rightarrow>
                if show then classList_add box ''is-error'' s
                else classList_remove box ''is-error'' s)
      else s)"

text \<open>
  What a pass writes, given the condition under which it presents and the verdict:
  both modelled revisions of \<open>validateInput\<close> end in these writes.
\<close>

definition present :: "dom \<Rightarrow> ref \<Rightarrow> ref \<Rightarrow> bool \<Rightarrow> bool \<Rightarrow> dom" where
  "present s w input gate isValid =
     (let s1 = checkbox_step s w input (gate \<and> \<not> isValid)
      in if gate
         then (if \<not> isValid then showError s1 w (error_target s w input)
               else hideError s1 w (error_target s w input))
         else s1)"


text \<open>
  The error display of a wrapper: the error class on the element that receives it, and
  the inline style that shows the error label.
\<close>

definition error_class_shown :: "dom \<Rightarrow> ref \<Rightarrow> bool" where
  "error_class_shown s w =
     (case querySelector s w sel_field of
        None \<Rightarrow> False
      | Some input \<Rightarrow> ''is-error'' \<in> classList (s ! error_target s w input))"

definition error_label_shown :: "dom \<Rightarrow> ref \<Rightarrow> bool" where
  "error_label_shown s w =
     (case querySelector s w (sel_class ''input-error-label'') of
        None \<Rightarrow> False
      | Some label \<Rightarrow> attributes (s ! label) ''style'' = Some (utf16 ''display: flex;''))"

text \<open>
  The markup that the validator is written for: the store is a tree (the descendants of
  a descendant of an element are descendants of that element), no element belongs to
  two wrappers of the form, and the elements that hold an error text (those with the
  attribute \<^verbatim>\<open>input-error-text\<close>) have no child element and are not text areas.
\<close>

definition nested :: "dom \<Rightarrow> bool" where
  "nested s =
     (\<forall>r. \<forall>j \<in> set (descendants s r). set (descendants s j) \<subseteq> set (descendants s r))"

definition separate_wrappers :: "dom \<Rightarrow> ref \<Rightarrow> bool" where
  "separate_wrappers s form =
     (\<forall>w \<in> set (querySelectorAll s form (sel_class ''input-wrapper'')).
      \<forall>w' \<in> set (querySelectorAll s form (sel_class ''input-wrapper'')).
        w \<noteq> w' \<longrightarrow> set (descendants s w) \<inter> set (descendants s w') = {})"

definition holders_plain :: "dom \<Rightarrow> bool" where
  "holders_plain s =
     list_all
       (\<lambda>h. sel_attr ''input-error-text'' (s ! h) \<longrightarrow>
              children s h = [] \<and> tagName (s ! h) \<noteq> ''textarea'')
       [0 ..< length s]"

text \<open>The error of a wrapper is shown: by the class, and by the label if there is one.\<close>

definition shows_error :: "dom \<Rightarrow> ref \<Rightarrow> bool" where
  "shows_error s w =
     (error_class_shown s w
      \<and> (querySelector s w (sel_class ''input-error-label'') \<noteq> None \<longrightarrow> error_label_shown s w))"

text \<open>An input element that has the given value and nothing else.\<close>

definition plain_field :: "jsstring \<Rightarrow> element" where
  "plain_field v =
     \<lparr>tagName = ''input'', attributes = Map.empty, classList = {}, val = v,
      checked = False, textContent = [], nsub = 0, removed = False, dirty = False\<rparr>"

section \<open>Example documents\<close>

text \<open>An element by tag, attributes, classes and number of descendants; an input by attributes and value.\<close>

definition el :: "string \<Rightarrow> (string \<times> jsstring) list \<Rightarrow> string list \<Rightarrow> nat \<Rightarrow> element" where
  "el t as cs n =
     \<lparr>tagName = t, attributes = map_of as, classList = set cs, val = [],
      checked = False, textContent = [], nsub = n, removed = False, dirty = False\<rparr>"

definition input_el :: "(string \<times> jsstring) list \<Rightarrow> jsstring \<Rightarrow> element" where
  "input_el as v = (el ''input'' as [] 0)\<lparr>val := v\<rparr>"

text \<open>A wrapper whose field declares no constraint and is empty.\<close>

definition ex_unconstrained :: dom where
  "ex_unconstrained = [el ''div'' [] [''input-wrapper''] 1, input_el [] []]"

text \<open>\<^verbatim>\<open><input type="email" input-validation-length="20" value="a@b.co">\<close>\<close>

definition ex_email_length :: dom where
  "ex_email_length =
     [el ''div'' [] [''input-wrapper''] 1,
      input_el [(''type'', utf16 ''email''), (''input-validation-length'', utf16 ''20'')]
        (utf16 ''a@b.co'')]"

text \<open>\<^verbatim>\<open><input input-validation-length="abc" value="hello">\<close>\<close>

definition ex_length_abc :: dom where
  "ex_length_abc =
     [el ''div'' [] [''input-wrapper''] 1,
      input_el [(''input-validation-length'', utf16 ''abc'')] (utf16 ''hello'')]"

text \<open>
  A form with a text field that asks for more than three characters and holds two, with
  its error label and the holder of its error text; a field without constraint; and a
  submit control.
\<close>

definition ex_form :: dom where
  "ex_form =
     [el ''form'' [] [] 7,
      el ''div'' [] [''input-wrapper''] 3,
      input_el [(''input-validation-length'', utf16 ''3'')] (utf16 ''ab''),
      el ''div'' [] [''input-error-label''] 1,
      el ''div'' [(''input-error-text'', utf16 ''Too short'')] [] 0,
      el ''div'' [] [''input-wrapper''] 1,
      input_el [] (utf16 ''x''),
      el ''input'' [(''type'', utf16 ''submit'')] [] 0]"

text \<open>
  A form with a required checkbox that is not checked, with its box and its error
  label, and a field without constraint.
\<close>

definition ex_checkbox_form :: dom where
  "ex_checkbox_form =
     [el ''form'' [] [] 6,
      el ''div'' [] [''input-wrapper''] 3,
      el ''div'' [] [''w-checkbox-input''] 0,
      el ''input'' [(''type'', utf16 ''checkbox''), (''input-validation-checkbox'', [])] [] 0,
      el ''div'' [] [''input-error-label''] 0,
      el ''div'' [] [''input-wrapper''] 1,
      input_el [] (utf16 ''x'')]"

text \<open>
  The first form after a submission attempt, and then after the user has focused and
  left the field without constraint; the form with the checkbox after a submission
  attempt.
\<close>

definition ex_submitted :: dom where
  "ex_submitted = fst (on_submit ex_form 0)"

definition ex_blurred :: dom where
  "ex_blurred = on_blur (on_focus ex_submitted 6) 0 5"

definition ex_checkbox_submitted :: dom where
  "ex_checkbox_submitted = fst (on_submit ex_checkbox_form 0)"

text \<open>A touched field that fails its rule, in a wrapper without error label.\<close>

definition ex_no_label :: dom where
  "ex_no_label =
     [el ''div'' [] [''input-wrapper''] 1,
      input_el [(''input-validation-length'', utf16 ''3''), (''data-touched'', utf16 ''true'')]
        (utf16 ''ab'')]"

text \<open>The first form with four characters in its text field.\<close>

definition ex_form_filled :: dom where
  "ex_form_filled =
     [el ''form'' [] [] 7,
      el ''div'' [] [''input-wrapper''] 3,
      input_el [(''input-validation-length'', utf16 ''3'')] (utf16 ''abcd''),
      el ''div'' [] [''input-error-label''] 1,
      el ''div'' [(''input-error-text'', utf16 ''Too short'')] [] 0,
      el ''div'' [] [''input-wrapper''] 1,
      input_el [] (utf16 ''x''),
      el ''input'' [(''type'', utf16 ''submit'')] [] 0]"

text \<open>
  A form whose field is marked up inside the element that holds its error text:
  \<^verbatim>\<open><form><div class="input-wrapper"><div class="input-error-label">
  <div input-error-text="Too short"><input input-validation-length="3" value="ab"></div>
  </div></div><input type="submit"></form>\<close>
\<close>

definition ex_field_in_holder :: dom where
  "ex_field_in_holder =
     [el ''form'' [] [] 5,
      el ''div'' [] [''input-wrapper''] 3,
      el ''div'' [] [''input-error-label''] 2,
      el ''div'' [(''input-error-text'', utf16 ''Too short'')] [] 1,
      input_el [(''input-validation-length'', utf16 ''3'')] (utf16 ''ab''),
      el ''input'' [(''type'', utf16 ''submit'')] [] 0]"

text \<open>
  A form with a wrapper inside a wrapper: the outer one holds a field that fails its
  rule, the inner one a field without constraint and the only error label.
\<close>

definition ex_wrapper_in_wrapper :: dom where
  "ex_wrapper_in_wrapper =
     [el ''form'' [] [] 5,
      el ''div'' [] [''input-wrapper''] 4,
      input_el [(''input-validation-length'', utf16 ''3'')] (utf16 ''ab''),
      el ''div'' [] [''input-wrapper''] 2,
      input_el [] (utf16 ''x''),
      el ''div'' [] [''input-error-label''] 0]"

section \<open>The matcher decides the language\<close>

lemma nullable_accepts: "nullable r = accepts r []"
proof (induction r)
  case Fail
  show ?case by (auto elim: accepts.cases)
next
  case Empty
  show ?case by (auto intro: accepts.intros)
next
  case (Class p)
  show ?case by (auto elim: accepts.cases)
next
  case (Then r q)
  then show ?case
    using acc_Then[of r "[]" q "[]"] by (auto elim: accepts.cases)
next
  case (Or r q)
  then show ?case by (auto intro: accepts.intros elim: accepts.cases)
next
  case (Many r)
  show ?case by (auto intro: accepts.intros)
qed

inductive_cases accepts_FailE: "accepts Fail w"
inductive_cases accepts_EmptyE: "accepts Empty w"
inductive_cases accepts_ClassE: "accepts (Class p) w"
inductive_cases accepts_ThenE: "accepts (Then r q) w"
inductive_cases accepts_OrE: "accepts (Or r q) w"

lemma accepts_Many_Cons:
  "accepts (Many r) (c # w) \<Longrightarrow> \<exists>u v. w = u @ v \<and> accepts r (c # u) \<and> accepts (Many r) v"
proof (induction "Many r" "c # w" arbitrary: w rule: accepts.induct)
  case (acc_ManyS u v)
  show ?case
  proof (cases u)
    case Nil
    with acc_ManyS show ?thesis by simp
  next
    case (Cons a u')
    with acc_ManyS show ?thesis by auto
  qed
qed

lemma deriv_accepts: "accepts (deriv c r) w = accepts r (c # w)"
proof (induction r arbitrary: w)
  case Fail
  show ?case by (auto elim: accepts_FailE)
next
  case Empty
  show ?case by (auto elim: accepts_FailE accepts_EmptyE)
next
  case (Class p)
  show ?case by (auto elim: accepts_FailE accepts_EmptyE accepts_ClassE intro: accepts.intros)
next
  case (Then r q)
  show ?case
  proof
    assume "accepts (deriv c (Then r q)) w"
    then show "accepts (Then r q) (c # w)"
      using Then acc_Then[of r "[]" q "c # w"] acc_Then[of r "c # u" q v for u v]
      by (auto simp: nullable_accepts split: if_splits elim!: accepts_OrE accepts_ThenE)
  next
    assume "accepts (Then r q) (c # w)"
    then obtain u v where uv: "c # w = u @ v" "accepts r u" "accepts q v"
      by (auto elim: accepts_ThenE)
    show "accepts (deriv c (Then r q)) w"
    proof (cases u)
      case Nil
      with uv Then show ?thesis by (auto simp: nullable_accepts intro: accepts.intros)
    next
      case (Cons a u')
      with uv Then show ?thesis by (auto simp: nullable_accepts intro: accepts.intros)
    qed
  qed
next
  case (Or r q)
  then show ?case by (auto elim!: accepts_OrE intro: accepts.intros)
next
  case (Many r)
  show ?case
  proof
    assume "accepts (deriv c (Many r)) w"
    then show "accepts (Many r) (c # w)"
      using Many acc_ManyS[of r "c # u" v for u v] by (auto elim!: accepts_ThenE)
  next
    assume "accepts (Many r) (c # w)"
    from accepts_Many_Cons[OF this] Many show "accepts (deriv c (Many r)) w"
      by (auto intro: accepts.intros)
  qed
qed

lemma matches_accepts: "matches r w = accepts r w"
  by (induction w arbitrary: r) (simp_all add: nullable_accepts deriv_accepts)

section \<open>The rules of a field\<close>

subsection \<open>What trimming does\<close>

lemma rev_split: "xs = rev (dropWhile P (rev xs)) @ rev (takeWhile P (rev xs))"
proof -
  have "rev (dropWhile P (rev xs)) @ rev (takeWhile P (rev xs))
        = rev (takeWhile P (rev xs) @ dropWhile P (rev xs))"
    by (simp only: rev_append)
  also have "\<dots> = xs" by (simp only: takeWhile_dropWhile_id rev_rev_ident)
  finally show ?thesis by (rule sym)
qed

lemma trim_decompose:
  "\<exists>p q. v = p @ trim v @ q \<and> (\<forall>c \<in> set p. is_space c) \<and> (\<forall>c \<in> set q. is_space c)"
proof -
  let ?d = "dropWhile is_space v"
  have v: "v = takeWhile is_space v @ ?d" by simp
  have d: "?d = trim v @ rev (takeWhile is_space (rev ?d))"
    unfolding trim_def by (rule rev_split)
  have "v = takeWhile is_space v @ trim v @ rev (takeWhile is_space (rev ?d))"
    using v d by metis
  moreover have "\<forall>c \<in> set (takeWhile is_space v). is_space c"
    by (auto dest: set_takeWhileD)
  moreover have "\<forall>c \<in> set (rev (takeWhile is_space (rev ?d))). is_space c"
    by (auto dest: set_takeWhileD)
  ultimately show ?thesis by blast
qed

lemma trim_last: "trim v \<noteq> [] \<Longrightarrow> \<not> is_space (last (trim v))"
  by (simp add: trim_def last_rev hd_dropWhile)

lemma trim_hd: "trim v \<noteq> [] \<Longrightarrow> \<not> is_space (hd (trim v))"
proof -
  assume ne: "trim v \<noteq> []"
  let ?d = "dropWhile is_space v"
  have d: "?d = trim v @ rev (takeWhile is_space (rev ?d))"
    unfolding trim_def by (rule rev_split)
  then have "hd ?d = hd (trim v)" using ne by (metis hd_append2)
  moreover have "?d \<noteq> []" using d ne by (metis append_is_Nil_conv)
  ultimately show ?thesis using hd_dropWhile[of is_space v] by metis
qed

lemma trim_no_space: "\<forall>c \<in> set v. \<not> is_space c \<Longrightarrow> trim v = v"
proof (cases v rule: rev_cases)
  case Nil
  then show ?thesis by (simp add: trim_def)
next
  case (snoc ys y)
  assume a: "\<forall>c \<in> set v. \<not> is_space c"
  then have "dropWhile is_space v = v" by (cases v) simp_all
  moreover have "dropWhile is_space (rev v) = rev v" using a snoc by simp
  ultimately show ?thesis by (simp add: trim_def)
qed

lemma trim_core:
  assumes p: "\<forall>c \<in> set p. is_space c" and q: "\<forall>c \<in> set q. is_space c"
    and c: "core = [] \<or> \<not> is_space (hd core) \<and> \<not> is_space (last core)"
  shows "trim (p @ core @ q) = core"
proof (cases "core = []")
  case True
  have d: "dropWhile is_space (p @ q) = []"
    unfolding dropWhile_eq_Nil_conv using p q by auto
  show ?thesis unfolding True trim_def append_Nil d by simp
next
  case False
  then obtain x xs where x: "core = x # xs" by (cases core) simp_all
  from False obtain ys y where y: "core = ys @ [y]" by (cases core rule: rev_cases) simp_all
  have nx: "\<not> is_space x" using c False x by simp
  have ny: "\<not> is_space y" using c False y by simp
  have "dropWhile is_space (p @ core @ q) = dropWhile is_space (core @ q)"
    using p by (simp add: dropWhile_append2)
  also have "\<dots> = core @ q" using nx x by simp
  finally have d: "dropWhile is_space (p @ core @ q) = core @ q" .
  have "dropWhile is_space (rev (core @ q)) = dropWhile is_space (rev core)"
    unfolding rev_append using q by (intro dropWhile_append2) simp
  also have "\<dots> = rev core" using ny y by simp
  finally have "dropWhile is_space (rev (core @ q)) = rev core" .
  then show ?thesis unfolding trim_def d by simp
qed

subsection \<open>Length\<close>

text \<open>
  C3, as amended. A value is white space, a core that neither starts nor ends with
  white space, and white space. In each revision the verdict of the length rule is one
  comparison of the length of the core with the minimum, and false against NaN:
  \<^verbatim>\<open>>\<close> in validateForm.ts, \<^verbatim>\<open>>=\<close> in part_000. The revisions do not use the same
  operator: their verdicts differ exactly when the core has the length of the minimum.
\<close>

theorem validateLength_comparison:
  assumes "val input = p @ core @ q"
    and "\<forall>c \<in> set p. is_space c" and "\<forall>c \<in> set q. is_space c"
    and "core = [] \<or> \<not> is_space (hd core) \<and> \<not> is_space (last core)"
  shows "trim (val input) = core
       \<and> validateLength input (Num m) = (m < int (length core))
       \<and> validateLength_part000 input (Num m) = (m \<le> int (length core))
       \<and> \<not> validateLength input NaN
       \<and> \<not> validateLength_part000 input NaN
       \<and> (validateLength input (Num m) \<noteq> validateLength_part000 input (Num m))
           = (m = int (length core))"
proof -
  have t: "trim (val input) = core"
    unfolding assms(1) using assms(2,3,4) by (rule trim_core)
  show ?thesis
    unfolding validateLength_def validateLength_part000_def js_length_def t
    by auto
qed

theorem validateLength_comparison_witness:
  "val (plain_field (utf16 ''  abc '')) = utf16 ''  '' @ utf16 ''abc'' @ utf16 '' ''
   \<and> trim (val (plain_field (utf16 ''  abc ''))) = utf16 ''abc''
   \<and> validateLength (plain_field (utf16 ''  abc '')) (Num 2)
   \<and> \<not> validateLength (plain_field (utf16 ''  abc '')) (Num 3)
   \<and> validateLength_part000 (plain_field (utf16 ''  abc '')) (Num 3)"
proof -
  have v: "val (plain_field (utf16 ''  abc '')) = utf16 ''  '' @ utf16 ''abc'' @ utf16 '' ''"
    by (simp add: plain_field_def utf16_def)
  have p: "\<forall>c \<in> set (utf16 ''  ''). is_space c" by (simp add: utf16_def is_space_def)
  have q: "\<forall>c \<in> set (utf16 '' ''). is_space c" by (simp add: utf16_def is_space_def)
  have c: "utf16 ''abc'' = []
           \<or> \<not> is_space (hd (utf16 ''abc'')) \<and> \<not> is_space (last (utf16 ''abc''))"
    by (simp add: utf16_def is_space_def)
  have l: "int (length (utf16 ''abc'')) = 3" by (simp add: utf16_def)
  from validateLength_comparison[OF v p q c, of 2] validateLength_comparison[OF v p q c, of 3] v
  show ?thesis unfolding l by simp
qed

text \<open>
  C3 as stated fails: for the value \<^verbatim>\<open>abc\<close> and the minimum 3 the length rule of
  validateForm.ts fails and the length rule of part_000 passes, so the two revisions
  that the property is about do not use one comparison operator.
\<close>

theorem validateLength_counterexample:
  "\<not> validateLength (plain_field (utf16 ''abc'')) (Num 3)
   \<and> validateLength_part000 (plain_field (utf16 ''abc'')) (Num 3)"
  by (simp add: validateLength_def validateLength_part000_def js_length_def trim_def
      plain_field_def utf16_def is_space_def)

subsection \<open>Phone\<close>

lemma replace_all_nondigit: "replace_all (\<lambda>c. \<not> is_digit c) [] v = filter is_digit v"
  by (induction v) (simp_all add: replace_all_def)

lemma validatePhone_iff: "validatePhone input = (10 \<le> digit_count (val input))"
  by (simp add: validatePhone_def replace_all_nondigit js_length_def digit_count_def)

lemma validatePhone_doc2_iff: "validatePhone_doc2 input = (5 \<le> digit_count (val input))"
  by (simp add: validatePhone_doc2_def replace_all_nondigit js_length_def digit_count_def)

lemma digit_count_separator: "\<not> is_digit c \<Longrightarrow> digit_count (u @ c # w) = digit_count (u @ w)"
  by (simp add: digit_count_def)

lemma digit_count_rev: "digit_count (rev v) = digit_count v"
  by (simp add: digit_count_def flip: rev_filter)

text \<open>
  C4, as amended. In validateForm.ts the verdict of the phone rule is whether the
  number of decimal digits of the value reaches the threshold (10, and 5 in the
  second document of the file). Nothing else counts: two values with as many digits
  get the same verdict, a character that is not a digit can be put anywhere, and
  the order of the characters is irrelevant.
\<close>

theorem validatePhone_digit_threshold:
  "validatePhone input = (10 \<le> digit_count (val input))
   \<and> validatePhone_doc2 input = (5 \<le> digit_count (val input))
   \<and> (digit_count (val a) = digit_count (val b) \<longrightarrow>
        validatePhone a = validatePhone b \<and> validatePhone_doc2 a = validatePhone_doc2 b)
   \<and> (\<not> is_digit c \<longrightarrow>
        validatePhone (input\<lparr>val := u @ c # w\<rparr>) = validatePhone (input\<lparr>val := u @ w\<rparr>))
   \<and> validatePhone (input\<lparr>val := rev v\<rparr>) = validatePhone (input\<lparr>val := v\<rparr>)"
  by (simp add: validatePhone_iff validatePhone_doc2_iff digit_count_separator digit_count_rev)

lemma digit_count_example:
  "digit_count (val (plain_field (utf16 ''123-456-7890'')))
   = digit_count (val (plain_field (utf16 ''(123) 4567890'')))"
  by (simp add: digit_count_def plain_field_def utf16_def is_digit_def)

lemma dash_no_digit: "\<not> is_digit 45"
  by (simp add: is_digit_def)

theorem validatePhone_digit_threshold_witness:
  "digit_count (val (plain_field (utf16 ''123-456-7890'')))
   = digit_count (val (plain_field (utf16 ''(123) 4567890'')))
   \<and> \<not> is_digit 45
   \<and> validatePhone (plain_field (utf16 ''123-456-7890''))
     = validatePhone (plain_field (utf16 ''(123) 4567890''))
   \<and> validatePhone ((plain_field [])\<lparr>val := utf16 ''123'' @ 45 # utf16 ''4567890''\<rparr>)
     = validatePhone ((plain_field [])\<lparr>val := utf16 ''123'' @ utf16 ''4567890''\<rparr>)"
  using validatePhone_digit_threshold
    [of "plain_field []" "plain_field (utf16 ''123-456-7890'')"
        "plain_field (utf16 ''(123) 4567890'')" 45 "utf16 ''123''" "utf16 ''4567890''" "[]"]
    digit_count_example dash_no_digit
  by blast

text \<open>
  C4 as stated fails on part_000, whose phone rule matches a format: ten digits pass
  when written together and fail with a space after the second, and thirteen digits
  fail, so that the verdict is not a threshold on the number of digits.
\<close>

theorem validatePhone_part000_counterexample:
  "validatePhone_part000 (plain_field (utf16 ''1234567890''))
   \<and> \<not> validatePhone_part000 (plain_field (utf16 ''12 34567890''))
   \<and> digit_count (utf16 ''1234567890'') = digit_count (utf16 ''12 34567890'')
   \<and> \<not> validatePhone_part000 (plain_field (utf16 ''1234567890123''))"
  by (simp add: validatePhone_part000_def phoneRegex_part000_def trim_def utf16_def
      is_space_def is_digit_def Opt_def Chr_def Let_def plain_field_def digit_count_def)

subsection \<open>Email\<close>

text \<open>
  C5. The email rule passes \<^verbatim>\<open>a@b.co\<close> and fails \<^verbatim>\<open>a@b\<close> and \<^verbatim>\<open>a b@c.com\<close>,
  whatever else the field is.
\<close>

theorem validateEmail_examples:
  "validateEmail (input\<lparr>val := utf16 ''a@b.co''\<rparr>)
   \<and> \<not> validateEmail (input\<lparr>val := utf16 ''a@b''\<rparr>)
   \<and> \<not> validateEmail (input\<lparr>val := utf16 ''a b@c.com''\<rparr>)"
  by (simp add: validateEmail_def emailRegex_def trim_def utf16_def is_space_def Plus_def
      Chr_def Let_def)

subsection \<open>When parseInt gives NaN\<close>

lemma parseInt_NaN_iff: "(parseInt10 v = NaN) = (\<not> has_leading_digit v)"
proof (cases "dropWhile is_space v")
  case Nil
  show ?thesis unfolding parseInt10_def has_leading_digit_def Nil by simp
next
  case (Cons c cs)
  show ?thesis
  proof (cases cs)
    case Nil
    show ?thesis unfolding parseInt10_def has_leading_digit_def Cons Nil
      by (simp add: Let_def)
  next
    case (Cons d ds)
    show ?thesis
      unfolding parseInt10_def has_leading_digit_def \<open>dropWhile is_space v = c # cs\<close> Cons
      by (simp add: Let_def)
  qed
qed

section \<open>Writes, and what they leave unchanged\<close>

lemma length_modify [simp]: "length (modify r f s) = length s"
  by (simp add: modify_def)

lemma nth_modify: "modify r f s ! i = (if i = r \<and> r < length s then f (s ! r) else s ! i)"
  by (simp add: modify_def)

lemma length_remove_children [simp]: "length (fold remove_child cs s) = length s"
  by (induction cs arbitrary: s) (simp_all add: remove_child_def)

lemma nth_remove_children:
  "fold remove_child cs s ! i
   = (if i \<in> set cs \<and> i < length s then (s ! i)\<lparr>removed := True\<rparr> else s ! i)"
proof (induction cs arbitrary: s)
  case Nil
  show ?case by simp
next
  case (Cons c cs)
  show ?case
    unfolding fold_Cons comp_apply Cons.IH
    by (auto simp: remove_child_def nth_modify)
qed

lemma length_writes [simp]:
  "length (classList_add r c s) = length s"
  "length (classList_remove r c s) = length s"
  "length (setAttribute r a v s) = length s"
  "length (set_textContent r v s) = length s"
  by (simp_all add: classList_add_def classList_remove_def setAttribute_def set_textContent_def)

subsection \<open>The fields of a written document\<close>

lemma classList_add_fields [simp]:
  "tagName (classList_add r c s ! i) = tagName (s ! i)"
  "attributes (classList_add r c s ! i) = attributes (s ! i)"
  "val (classList_add r c s ! i) = val (s ! i)"
  "checked (classList_add r c s ! i) = checked (s ! i)"
  "textContent (classList_add r c s ! i) = textContent (s ! i)"
  "nsub (classList_add r c s ! i) = nsub (s ! i)"
  by (simp_all add: classList_add_def nth_modify)

lemma classList_remove_fields [simp]:
  "tagName (classList_remove r c s ! i) = tagName (s ! i)"
  "attributes (classList_remove r c s ! i) = attributes (s ! i)"
  "val (classList_remove r c s ! i) = val (s ! i)"
  "checked (classList_remove r c s ! i) = checked (s ! i)"
  "textContent (classList_remove r c s ! i) = textContent (s ! i)"
  "nsub (classList_remove r c s ! i) = nsub (s ! i)"
  by (simp_all add: classList_remove_def nth_modify)

lemma setAttribute_fields [simp]:
  "tagName (setAttribute r a v s ! i) = tagName (s ! i)"
  "classList (setAttribute r a v s ! i) = classList (s ! i)"
  "val (setAttribute r a v s ! i) = val (s ! i)"
  "checked (setAttribute r a v s ! i) = checked (s ! i)"
  "textContent (setAttribute r a v s ! i) = textContent (s ! i)"
  "nsub (setAttribute r a v s ! i) = nsub (s ! i)"
  by (simp_all add: setAttribute_def nth_modify)

lemma set_textContent_fields [simp]:
  "tagName (set_textContent r v s ! i) = tagName (s ! i)"
  "classList (set_textContent r v s ! i) = classList (s ! i)"
  "attributes (set_textContent r v s ! i) = attributes (s ! i)"
  "checked (set_textContent r v s ! i) = checked (s ! i)"
  "nsub (set_textContent r v s ! i) = nsub (s ! i)"
  by (simp_all add: set_textContent_def nth_modify nth_remove_children)

lemma classList_add_classList:
  "classList (classList_add r c s ! i)
   = (if i = r \<and> r < length s then insert c (classList (s ! i)) else classList (s ! i))"
  by (simp add: classList_add_def nth_modify)

lemma classList_remove_classList:
  "classList (classList_remove r c s ! i)
   = (if i = r \<and> r < length s then classList (s ! i) - {c} else classList (s ! i))"
  by (simp add: classList_remove_def nth_modify)

lemma setAttribute_attributes:
  "attributes (setAttribute r a v s ! i)
   = (if i = r \<and> r < length s then (attributes (s ! i))(a \<mapsto> v) else attributes (s ! i))"
  by (simp add: setAttribute_def nth_modify)

lemma reads_after_class_write [simp]:
  "hasAttribute (classList_add r c s ! i) a = hasAttribute (s ! i) a"
  "hasAttribute (classList_remove r c s ! i) a = hasAttribute (s ! i) a"
  "input_type_is (classList_add r c s ! i) t = input_type_is (s ! i) t"
  "input_type_is (classList_remove r c s ! i) t = input_type_is (s ! i) t"
  by (simp_all add: hasAttribute_def input_type_is_def type_attr_is_def)

lemma reads_after_either_write [simp]:
  "hasAttribute ((if c then classList_add r k s else classList_remove r k s) ! i) a
   = hasAttribute (s ! i) a"
  "input_type_is ((if c then classList_add r k s else classList_remove r k s) ! i) t
   = input_type_is (s ! i) t"
  by simp_all

subsection \<open>The frame of a document\<close>

lemma frame_modify:
  "(\<And>e. static (f e) = static e) \<Longrightarrow> frame (modify r f s) = frame s"
  by (simp add: frame_def modify_def list_eq_iff_nth_eq nth_list_update)

lemma frame_classList_add:
  "c = ''is-error'' \<or> c = ''is-disabled'' \<Longrightarrow> frame (classList_add r c s) = frame s"
  unfolding classList_add_def by (rule frame_modify) (auto simp: static_def)

lemma frame_classList_remove:
  "c = ''is-error'' \<or> c = ''is-disabled'' \<Longrightarrow> frame (classList_remove r c s) = frame s"
  unfolding classList_remove_def by (rule frame_modify) (auto simp: static_def)

lemma frame_setAttribute_style: "frame (setAttribute r ''style'' v s) = frame s"
  unfolding setAttribute_def by (rule frame_modify) (auto simp: static_def)

lemma frame_modify_at:
  assumes "static (f (s ! r)) = static (s ! r)"
  shows "frame (modify r f s) = frame s"
proof (cases "r < length s")
  case True
  then have "(map static s)[r := static (s ! r)] = map static s"
    by (simp add: list_update_same_conv)
  then show ?thesis using True assms by (simp add: frame_def modify_def map_update)
next
  case False
  then show ?thesis by (simp add: modify_def)
qed

lemma frame_set_textContent:
  assumes "children s r = []" "tagName (s ! r) \<noteq> ''textarea''"
  shows "frame (set_textContent r v s) = frame s"
  unfolding set_textContent_def assms(1) fold_Nil id_apply
proof (rule frame_modify_at)
  have "(if tagName (s ! r) = ''textarea'' \<and> \<not> dirty (s ! r) then normalize_newlines v
         else val (s ! r)) = val (s ! r)"
    using assms(2) by (simp only: if_False simp_thms)
  then show "static ((s ! r)\<lparr>textContent := v,
                 val := if tagName (s ! r) = ''textarea'' \<and> \<not> dirty (s ! r)
                        then normalize_newlines v else val (s ! r)\<rparr>) = static (s ! r)"
    unfolding static_def by simp
qed

lemmas frame_writes = frame_classList_add frame_classList_remove frame_setAttribute_style

lemma frame_hideError: "frame (hideError s wrapper input) = frame s"
  by (simp add: hideError_def Let_def frame_writes split: option.splits)

lemma frame_length: "frame s = frame s' \<Longrightarrow> length s = length s'"
  by (metis frame_def length_map)

lemma frame_nth: "frame s = frame s' \<Longrightarrow> i < length s \<Longrightarrow> static (s ! i) = static (s' ! i)"
  by (metis frame_def frame_length nth_map)

lemma in_descendants: "j \<in> set (descendants s r) \<Longrightarrow> r < j \<and> j < length s"
  by (auto simp: descendants_def split: if_splits)

lemma static_nsub: "static e = static e' \<Longrightarrow> nsub e = nsub e'"
  by (simp add: static_def)

lemma static_removed: "static e = static e' \<Longrightarrow> removed e = removed e'"
  by (simp add: static_def)

lemma attached_frame:
  assumes "frame s = frame s'" "i < length s"
  shows "attached s r i = attached s' r i"
proof -
  have "(i \<le> j + nsub (s ! j) \<and> removed (s ! j)) = (i \<le> j + nsub (s' ! j) \<and> removed (s' ! j))"
    if "j \<in> set [Suc r ..< Suc i]" for j
  proof -
    from that assms(2) have "j < length s" by auto
    then have "static (s ! j) = static (s' ! j)" using assms(1) by (intro frame_nth)
    then have "nsub (s ! j) = nsub (s' ! j)" "removed (s ! j) = removed (s' ! j)"
      by (simp_all add: static_def)
    then show ?thesis by simp
  qed
  then show ?thesis unfolding attached_def list_ex_iff by blast
qed

lemma descendants_frame:
  assumes "frame s = frame s'"
  shows "descendants s r = descendants s' r"
proof (cases "r < length s")
  case True
  then have n: "nsub (s ! r) = nsub (s' ! r)"
    using assms by (intro static_nsub frame_nth)
  have l: "length s' = length s" using frame_length[OF assms] by simp
  have "filter (attached s r) [Suc r ..< min (length s) (Suc (r + nsub (s ! r)))]
      = filter (attached s' r) [Suc r ..< min (length s) (Suc (r + nsub (s ! r)))]"
    using attached_frame[OF assms] by (intro filter_cong) simp_all
  then show ?thesis using True by (simp add: descendants_def n l)
next
  case False
  then show ?thesis
    using frame_length[OF assms] by (simp add: descendants_def)
qed

lemma children_frame:
  assumes "frame s = frame s'"
  shows "children s r = children s' r"
proof -
  have "list_ex (\<lambda>j. i \<le> j + nsub (s ! j)) [Suc r ..< i]
      = list_ex (\<lambda>j. i \<le> j + nsub (s' ! j)) [Suc r ..< i]"
    if "i \<in> set (descendants s r)" for i
  proof -
    from that have i: "i < length s" by (simp add: in_descendants)
    have "nsub (s ! j) = nsub (s' ! j)" if "j \<in> set [Suc r ..< i]" for j
    proof -
      from that i have "j < length s" by simp
      then show ?thesis using assms by (intro static_nsub frame_nth)
    qed
    then show ?thesis unfolding list_ex_iff by (intro bex_cong) simp_all
  qed
  then have "filter (\<lambda>i. \<not> list_ex (\<lambda>j. i \<le> j + nsub (s ! j)) [Suc r ..< i]) (descendants s r)
      = filter (\<lambda>i. \<not> list_ex (\<lambda>j. i \<le> j + nsub (s' ! j)) [Suc r ..< i]) (descendants s r)"
    by (intro filter_cong) simp_all
  then show ?thesis unfolding children_def descendants_frame[OF assms] .
qed

lemma static_selD: "static_sel sel \<Longrightarrow> static e = static e' \<Longrightarrow> sel e = sel e'"
  unfolding static_sel_def by blast

lemma querySelectorAll_frame:
  assumes "frame s = frame s'" "static_sel sel"
  shows "querySelectorAll s r sel = querySelectorAll s' r sel"
proof -
  have "sel (s ! j) = sel (s' ! j)" if "j \<in> set (descendants s r)" for j
  proof -
    from that have "j < length s" by (simp add: in_descendants)
    then have "static (s ! j) = static (s' ! j)" using assms(1) by (intro frame_nth)
    then show ?thesis using assms(2) by (intro static_selD)
  qed
  then have "filter (\<lambda>j. sel (s ! j)) (descendants s r) = filter (\<lambda>j. sel (s' ! j)) (descendants s r)"
    by (intro filter_cong) simp_all
  then show ?thesis
    by (simp add: querySelectorAll_def descendants_frame[OF assms(1), symmetric])
qed

lemma querySelector_frame:
  assumes "frame s = frame s'" "static_sel sel"
  shows "querySelector s r sel = querySelector s' r sel"
  unfolding querySelector_def querySelectorAll_frame[OF assms] by (rule refl)

lemma querySelector_SomeD:
  "querySelector s r sel = Some j \<Longrightarrow> j \<in> set (descendants s r) \<and> sel (s ! j)"
proof -
  assume "querySelector s r sel = Some j"
  then have "j \<in> set (querySelectorAll s r sel)"
    by (auto simp: querySelector_def split: list.splits)
  then show ?thesis by (simp add: querySelectorAll_def)
qed

lemma querySelector_lt: "querySelector s r sel = Some j \<Longrightarrow> j < length s"
  using querySelector_SomeD in_descendants by blast

lemma static_tagName: "static e = static e' \<Longrightarrow> tagName e = tagName e'"
  by (simp add: static_def)

lemma static_sel_field: "static_sel sel_field"
  unfolding static_sel_def
proof (intro allI impI)
  fix e e' :: element
  assume "static e = static e'"
  then have "tagName e = tagName e'" by (rule static_tagName)
  then show "sel_field e = sel_field e'" by (simp add: sel_field_def)
qed

lemma static_attr: "a \<noteq> ''style'' \<Longrightarrow> static e = static e' \<Longrightarrow> attributes e a = attributes e' a"
proof -
  assume a: "a \<noteq> ''style''" and "static e = static e'"
  then have "(attributes e)(''style'' := None) = (attributes e')(''style'' := None)"
    by (simp add: static_def)
  then have "((attributes e)(''style'' := None)) a = ((attributes e')(''style'' := None)) a"
    by (rule fun_cong)
  with a show ?thesis by simp
qed

lemma static_type_attr: "static e = static e' \<Longrightarrow> type_attr_is e t = type_attr_is e' t"
  using static_attr[of "''type''" e e'] by (simp add: type_attr_is_def)

lemma static_sel_submit: "static_sel sel_submit"
  unfolding static_sel_def
proof (intro allI impI)
  fix e e' :: element
  assume eq: "static e = static e'"
  then have "tagName e = tagName e'" by (rule static_tagName)
  moreover have "type_attr_is e ''submit'' = type_attr_is e' ''submit''"
    using eq by (rule static_type_attr)
  ultimately show "sel_submit e = sel_submit e'" by (simp add: sel_submit_def)
qed

lemma static_classList:
  assumes "static e = static e'" "c \<noteq> ''is-error''" "c \<noteq> ''is-disabled''"
  shows "(c \<in> classList e) = (c \<in> classList e')"
proof -
  have "classList e - {''is-error'', ''is-disabled''} = classList e' - {''is-error'', ''is-disabled''}"
    using assms(1) by (simp add: static_def)
  then have "(c \<in> classList e - {''is-error'', ''is-disabled''})
           = (c \<in> classList e' - {''is-error'', ''is-disabled''})"
    by (rule arg_cong)
  with assms(2,3) show ?thesis by simp
qed

lemma static_sel_class:
  "c \<noteq> ''is-error'' \<Longrightarrow> c \<noteq> ''is-disabled'' \<Longrightarrow> static_sel (sel_class c)"
  unfolding static_sel_def
proof (intro allI impI)
  fix e e' :: element
  assume "c \<noteq> ''is-error''" "c \<noteq> ''is-disabled''" "static e = static e'"
  then have "(c \<in> classList e) = (c \<in> classList e')" by (intro static_classList)
  then show "sel_class c e = sel_class c e'" by (simp add: sel_class_def)
qed

lemma static_sel_attr: "a \<noteq> ''style'' \<Longrightarrow> static_sel (sel_attr a)"
  unfolding static_sel_def
proof (intro allI impI)
  fix e e' :: element
  assume "a \<noteq> ''style''" "static e = static e'"
  then have "attributes e a = attributes e' a" by (rule static_attr)
  then show "sel_attr a e = sel_attr a e'" by (simp add: sel_attr_def hasAttribute_def)
qed

lemma static_field_verdict:
  assumes "static e = static e'"
  shows "field_verdict e = field_verdict e'"
proof -
  have v: "val e = val e'" "checked e = checked e'" "tagName e = tagName e'"
    using assms by (simp_all add: static_def)
  have a: "attributes e a = attributes e' a" if "a \<noteq> ''style''" for a
    using that assms by (rule static_attr)
  have d: "declared e r = declared e' r" for r
    by (cases r) (simp_all add: hasAttribute_def input_type_is_def a v static_type_attr[OF assms])
  have r: "rule_verdict r e = rule_verdict r e'" for r
    by (cases r) (simp_all add: validateLength_def validatePhone_def validateEmail_def
        validateCheckbox_def getAttribute_def a v)
  show ?thesis unfolding field_verdict_def selected_rule_def d r by (rule refl)
qed

lemma wrapper_verdict_frame:
  assumes "frame s = frame s'"
  shows "wrapper_verdict s w = wrapper_verdict s' w"
proof -
  have q: "querySelector s' w sel_field = querySelector s w sel_field"
    using querySelector_frame[OF assms static_sel_field, of w] by simp
  show ?thesis
  proof (cases "querySelector s w sel_field")
    case None
    then show ?thesis unfolding wrapper_verdict_def q by simp
  next
    case (Some i)
    then have "i < length s" by (rule querySelector_lt)
    then have "field_verdict (s ! i) = field_verdict (s' ! i)"
      using assms by (intro static_field_verdict frame_nth)
    with Some show ?thesis unfolding wrapper_verdict_def q by simp
  qed
qed

subsection \<open>Holders of an error text without children\<close>

lemma holders_plain_iff:
  "holders_plain s
   = (\<forall>h < length s. sel_attr ''input-error-text'' (s ! h) \<longrightarrow>
        children s h = [] \<and> tagName (s ! h) \<noteq> ''textarea'')"
  unfolding holders_plain_def list_all_iff by auto

lemma holders_plain_frame:
  assumes "frame s = frame s'"
  shows "holders_plain s = holders_plain s'"
proof -
  have "sel_attr ''input-error-text'' (s ! h) = sel_attr ''input-error-text'' (s' ! h)
        \<and> tagName (s ! h) = tagName (s' ! h)"
    if "h < length s" for h
  proof -
    from that have e: "static (s ! h) = static (s' ! h)" using assms by (intro frame_nth)
    then have "sel_attr ''input-error-text'' (s ! h) = sel_attr ''input-error-text'' (s' ! h)"
      by (intro static_selD[OF static_sel_attr]) simp_all
    with e show ?thesis using static_tagName by blast
  qed
  then show ?thesis
    unfolding holders_plain_iff children_frame[OF assms] frame_length[OF assms, symmetric]
    by metis
qed

lemma holder_plain:
  assumes "holders_plain s" "querySelector s l (sel_attr ''input-error-text'') = Some h"
  shows "children s h = [] \<and> tagName (s ! h) \<noteq> ''textarea''"
proof -
  have "h < length s" using assms(2) by (rule querySelector_lt)
  moreover have "sel_attr ''input-error-text'' (s ! h)"
    using querySelector_SomeD[OF assms(2)] by blast
  ultimately show ?thesis using assms(1) unfolding holders_plain_iff by blast
qed

lemma frame_showError:
  assumes "holders_plain s"
  shows "frame (showError s wrapper input) = frame s"
proof -
  let ?s1 = "classList_add input ''is-error'' s"
  have f1: "frame ?s1 = frame s" by (simp add: frame_classList_add)
  then have h1: "holders_plain ?s1" using assms holders_plain_frame by blast
  have t: "frame (set_textContent h v ?s1) = frame s"
    if "querySelector ?s1 l (sel_attr ''input-error-text'') = Some h" for l h v
    using holder_plain[OF h1 that] f1 by (simp add: frame_set_textContent)
  show ?thesis
    by (simp add: showError_def Let_def f1 t frame_setAttribute_style split: option.splits)
qed

subsection \<open>The presenter, field by field\<close>

lemma query_after_add:
  "static_sel sel \<Longrightarrow>
   querySelector (classList_add t ''is-error'' s) w sel = querySelector s w sel"
  by (rule querySelector_frame) (simp_all add: frame_classList_add)

lemma query_after_remove:
  "static_sel sel \<Longrightarrow>
   querySelector (classList_remove t ''is-error'' s) w sel = querySelector s w sel"
  by (rule querySelector_frame) (simp_all add: frame_classList_remove)

lemma static_sel_label: "static_sel (sel_class ''input-error-label'')"
  by (rule static_sel_class) simp_all

lemma static_sel_box: "static_sel (sel_class ''w-checkbox-input'')"
  by (rule static_sel_class) simp_all

lemma static_sel_wrapper: "static_sel (sel_class ''input-wrapper'')"
  by (rule static_sel_class) simp_all

lemma showError_classList:
  "classList (showError s w t ! i)
   = (if i = t \<and> t < length s then insert ''is-error'' (classList (s ! i)) else classList (s ! i))"
  by (simp add: showError_def Let_def classList_add_classList split: option.splits)

lemma hideError_classList:
  "classList (hideError s w t ! i)
   = (if i = t \<and> t < length s then classList (s ! i) - {''is-error''} else classList (s ! i))"
  by (simp add: hideError_def Let_def classList_remove_classList split: option.splits)

lemma showError_attributes:
  "attributes (showError s w t ! i)
   = (if querySelector s w (sel_class ''input-error-label'') = Some i
      then (attributes (s ! i))(''style'' \<mapsto> utf16 ''display: flex;'')
      else attributes (s ! i))"
proof (cases "querySelector s w (sel_class ''input-error-label'')")
  case None
  then show ?thesis
    by (simp add: showError_def Let_def query_after_add[OF static_sel_label])
next
  case (Some l)
  then have "l < length s" by (rule querySelector_lt)
  with Some show ?thesis
    by (simp add: showError_def Let_def query_after_add[OF static_sel_label]
        setAttribute_attributes split: option.splits)
qed

lemma hideError_attributes:
  "attributes (hideError s w t ! i)
   = (if querySelector s w (sel_class ''input-error-label'') = Some i
      then (attributes (s ! i))(''style'' \<mapsto> utf16 ''display: none;'')
      else attributes (s ! i))"
proof (cases "querySelector s w (sel_class ''input-error-label'')")
  case None
  then show ?thesis
    by (simp add: hideError_def Let_def query_after_remove[OF static_sel_label])
next
  case (Some l)
  then have "l < length s" by (rule querySelector_lt)
  with Some show ?thesis
    by (simp add: hideError_def Let_def query_after_remove[OF static_sel_label]
        setAttribute_attributes split: option.splits)
qed

lemma showError_no_label:
  "querySelector s w (sel_class ''input-error-label'') = None \<Longrightarrow>
   showError s w t = classList_add t ''is-error'' s"
  by (simp add: showError_def Let_def query_after_add[OF static_sel_label])

lemma hideError_no_label:
  "querySelector s w (sel_class ''input-error-label'') = None \<Longrightarrow>
   hideError s w t = classList_remove t ''is-error'' s"
  by (simp add: hideError_def Let_def query_after_remove[OF static_sel_label])

lemma hideError_textContent: "textContent (hideError s w t ! i) = textContent (s ! i)"
  by (simp add: hideError_def Let_def split: option.splits)

subsection \<open>One wrapper\<close>

lemma field_verdict_unfold:
  "field_verdict e =
     (if hasAttribute e ''input-validation-checkbox'' then validateCheckbox e
      else if input_type_is e ''email'' then validateEmail e
      else if hasAttribute e ''input-validation-phone'' then validatePhone e
      else if hasAttribute e ''input-validation-length''
           then validateLength e
                  (parseInt10 (or_else (getAttribute e ''input-validation-length'') (utf16 ''0'')))
      else True)"
  by (simp add: field_verdict_def selected_rule_def)

lemma validateInput_Some:
  assumes "querySelector s w sel_field = Some input"
  shows "validateInput s w a b =
     (field_verdict (s ! input),
      let gate = display_gate s input a b;
          s1 = checkbox_step s w input (gate \<and> \<not> field_verdict (s ! input))
      in if gate
         then (if \<not> field_verdict (s ! input) then showError s1 w (error_target s w input)
               else hideError s1 w (error_target s w input))
         else s1)"
proof (cases "hasAttribute (s ! input) ''input-validation-checkbox''")
  case True
  then show ?thesis
    unfolding validateInput_def assms field_verdict_unfold
    by (cases "input_type_is (s ! input) ''checkbox''";
        cases "querySelector s w (sel_class ''w-checkbox-input'')")
       (auto simp add: Let_def display_gate_def checkbox_step_def error_target_def)
next
  case False
  then show ?thesis
    unfolding validateInput_def assms field_verdict_unfold
    by (cases "input_type_is (s ! input) ''checkbox''";
        cases "querySelector s w (sel_class ''w-checkbox-input'')")
       (simp_all add: Let_def display_gate_def checkbox_step_def error_target_def
          split del: if_split cong: if_cong)
qed

lemma validateInput_None:
  "querySelector s w sel_field = None \<Longrightarrow> validateInput s w a b = (True, s)"
  by (simp add: validateInput_def)

lemma validateInput_present:
  assumes "querySelector s w sel_field = Some input"
  shows "validateInput s w a b =
     (field_verdict (s ! input),
      present s w input (display_gate s input a b) (field_verdict (s ! input)))"
  by (simp add: validateInput_Some[OF assms] present_def Let_def)


lemma validateInput_part000_None:
  "querySelector s w sel_field = None \<Longrightarrow> validateInput_part000 s w a = (True, s)"
  by (simp add: validateInput_part000_def)

lemma frame_checkbox_step: "frame (checkbox_step s w input c) = frame s"
  by (simp add: checkbox_step_def frame_writes split: option.splits)

lemma fst_validateInput: "fst (validateInput s w a b) = wrapper_verdict s w"
proof (cases "querySelector s w sel_field")
  case None
  then show ?thesis by (simp add: validateInput_None wrapper_verdict_def)
next
  case (Some input)
  then show ?thesis by (simp add: validateInput_Some wrapper_verdict_def)
qed

lemma frame_validateInput:
  assumes "wrapper_verdict s w \<or> holders_plain s"
  shows "frame (snd (validateInput s w a b)) = frame s"
proof (cases "querySelector s w sel_field")
  case None
  then show ?thesis by (simp add: validateInput_None)
next
  case (Some input)
  have f1: "frame (checkbox_step s w input c) = frame s" for c by (rule frame_checkbox_step)
  have "frame (showError (checkbox_step s w input c) w t) = frame s"
    if "\<not> field_verdict (s ! input)" for t c
  proof -
    from that assms Some have "holders_plain s" by (simp add: wrapper_verdict_def)
    then have "holders_plain (checkbox_step s w input c)"
      using holders_plain_frame[OF f1] by simp
    then show ?thesis using f1 by (simp add: frame_showError)
  qed
  then show ?thesis
    by (simp add: validateInput_Some[OF Some] Let_def frame_hideError f1)
qed

subsection \<open>The wrappers of a form\<close>

lemma frame_validateEach:
  assumes "holders_plain s"
  shows "frame (snd (validateEach ws a b (acc, s))) = frame s"
  using assms
proof (induction ws arbitrary: acc s)
  case Nil
  show ?case by simp
next
  case (Cons w ws)
  have f: "frame (snd (validateInput s w a b)) = frame s"
    using Cons.prems by (intro frame_validateInput) simp
  then have "holders_plain (snd (validateInput s w a b))"
    using Cons.prems holders_plain_frame by blast
  from Cons.IH[OF this] f show ?case
    by (simp add: split_beta Let_def)
qed

lemma validateEach_failed: "\<not> fst (validateEach ws a b (False, s))"
proof (induction ws arbitrary: s)
  case Nil
  show ?case by simp
next
  case (Cons w ws)
  then show ?case by (simp add: split_beta Let_def)
qed

lemma fst_validateEach:
  "fst (validateEach ws a b (acc, s)) = (acc \<and> list_all (wrapper_verdict s) ws)"
proof (induction ws arbitrary: acc s)
  case Nil
  show ?case by simp
next
  case (Cons w ws)
  show ?case
  proof (cases "wrapper_verdict s w")
    case True
    then have f: "frame (snd (validateInput s w a b)) = frame s"
      by (intro frame_validateInput) simp
    have "list_all (wrapper_verdict (snd (validateInput s w a b))) ws
          = list_all (wrapper_verdict s) ws"
      unfolding list_all_iff wrapper_verdict_frame[OF f] by (rule refl)
    then show ?thesis
      using Cons.IH True fst_validateInput[of s w a b]
      by (simp add: split_beta Let_def)
  next
    case False
    then show ?thesis
      using validateEach_failed fst_validateInput[of s w a b]
      by (simp add: split_beta Let_def)
  qed
qed

lemma fst_validateForm: "fst (validateForm s form a b) = form_verdict s form"
  by (simp add: validateForm_def form_verdict_def Let_def split_beta fst_validateEach)

lemma frame_validateForm:
  assumes "holders_plain s"
  shows "frame (snd (validateForm s form a b)) = frame s"
  by (simp add: validateForm_def Let_def split_beta frame_validateEach[OF assms] frame_writes
      split: option.splits)

section \<open>The verdict of a field\<close>

lemmas ex_defs = ex_unconstrained_def ex_email_length_def ex_length_abc_def ex_form_def
  ex_checkbox_form_def ex_submitted_def ex_blurred_def ex_checkbox_submitted_def
  ex_no_label_def ex_form_filled_def ex_field_in_holder_def
  ex_wrapper_in_wrapper_def el_def input_el_def
lemmas query_defs = querySelector_def querySelectorAll_def descendants_def attached_def
  children_def sel_field_def
  sel_class_def sel_attr_def sel_submit_def
lemmas write_defs = classList_add_def classList_remove_def setAttribute_def set_textContent_def
  remove_child_def modify_def
lemmas rule_defs = validateLength_def validatePhone_def validateEmail_def validateCheckbox_def
  parseInt10_def digits_value_def js_length_def trim_def utf16_def is_space_def is_digit_def
  replace_all_def
lemmas run_defs = validateForm_def validateInput_def showError_def hideError_def on_submit_def
  on_blur_def on_focus_def Let_def
lemmas read_defs = hasAttribute_def getAttribute_def input_type_is_def type_attr_is_def
  or_else_def ascii_lower_def

text \<open>
  C10. The verdict that \<open>validateInput\<close> returns, and so the verdict that
  \<open>validateForm\<close> returns, is the same for all values of the two display flags.
\<close>

theorem verdict_independent_of_display_flags:
  "fst (validateInput s wrapper showErrors forceShowErrors)
     = fst (validateInput s wrapper showErrors' forceShowErrors')
   \<and> fst (validateForm s form showErrors forceShowErrors)
     = fst (validateForm s form showErrors' forceShowErrors')"
  by (simp add: fst_validateInput fst_validateForm)

subsection \<open>Which rule decides\<close>

lemma selected_rule_declared: "selected_rule e = Some r \<Longrightarrow> declared e r"
  by (auto simp: selected_rule_def split: if_splits)

lemma selected_rule_None: "(selected_rule e = None) = (\<forall>r. \<not> declared e r)"
proof
  assume "selected_rule e = None"
  then have n: "\<not> declared e CheckboxRule" "\<not> declared e EmailRule" "\<not> declared e PhoneRule"
    "\<not> declared e LengthRule"
    by (auto simp: selected_rule_def split: if_splits)
  show "\<forall>r. \<not> declared e r"
  proof
    fix r show "\<not> declared e r" using n by (cases r) simp_all
  qed
next
  assume a: "\<forall>r. \<not> declared e r"
  have "\<not> declared e CheckboxRule" "\<not> declared e EmailRule" "\<not> declared e PhoneRule"
    "\<not> declared e LengthRule"
    using a by blast+
  then show "selected_rule e = None" unfolding selected_rule_def by (simp only: if_False)
qed

lemma selected_rule_only:
  assumes "declared e r" "\<forall>r'. declared e r' \<longrightarrow> r' = r"
  shows "selected_rule e = Some r"
proof (cases "selected_rule e")
  case None
  with assms(1) show ?thesis by (simp add: selected_rule_None)
next
  case (Some r')
  then have "declared e r'" by (rule selected_rule_declared)
  with assms(2) Some show ?thesis by simp
qed

lemma validateInput_selected:
  "fst (validateInput s w a b) =
     (case querySelector s w sel_field of
        None \<Rightarrow> True
      | Some input \<Rightarrow>
          (case selected_rule (s ! input) of
             None \<Rightarrow> True
           | Some r \<Rightarrow> rule_verdict r (s ! input)))"
  by (cases "querySelector s w sel_field")
     (simp_all add: fst_validateInput wrapper_verdict_def field_verdict_def)

text \<open>
  C6, as amended. The verdict of a field is the verdict of one rule, the last of
  those its attributes declare in the order length, phone, email (by the type of the
  field), checkbox; no other rule has a part in it. A field that declares exactly one
  constraint is decided by that rule, and a field that declares none passes.
\<close>

theorem one_rule_decides:
  "fst (validateInput s w showErrors forceShowErrors) =
     (case querySelector s w sel_field of
        None \<Rightarrow> True
      | Some input \<Rightarrow>
          (case selected_rule (s ! input) of
             None \<Rightarrow> True
           | Some r \<Rightarrow> rule_verdict r (s ! input)))
   \<and> selected_rule e =
       (if declared e CheckboxRule then Some CheckboxRule
        else if declared e EmailRule then Some EmailRule
        else if declared e PhoneRule then Some PhoneRule
        else if declared e LengthRule then Some LengthRule
        else None)
   \<and> (declared e r \<and> (\<forall>r'. declared e r' \<longrightarrow> r' = r) \<longrightarrow> selected_rule e = Some r)
   \<and> ((\<forall>r'. \<not> declared e r') \<longrightarrow> selected_rule e = None)"
proof (intro conjI impI)
  show "fst (validateInput s w showErrors forceShowErrors) =
     (case querySelector s w sel_field of
        None \<Rightarrow> True
      | Some input \<Rightarrow>
          (case selected_rule (s ! input) of
             None \<Rightarrow> True
           | Some r \<Rightarrow> rule_verdict r (s ! input)))"
    by (rule validateInput_selected)
  show "selected_rule e =
       (if declared e CheckboxRule then Some CheckboxRule
        else if declared e EmailRule then Some EmailRule
        else if declared e PhoneRule then Some PhoneRule
        else if declared e LengthRule then Some LengthRule
        else None)"
    by (rule selected_rule_def)
  assume "declared e r \<and> (\<forall>r'. declared e r' \<longrightarrow> r' = r)"
  then show "selected_rule e = Some r" using selected_rule_only by blast
next
  assume "\<forall>r'. \<not> declared e r'"
  then show "selected_rule e = None" using selected_rule_None by blast
qed

lemma ex_email_length_field: "querySelector ex_email_length 0 sel_field = Some 1"
  by (simp add: ex_defs query_defs)

lemma ex_email_length_declared:
  "declared (ex_email_length ! 1) EmailRule"
  "declared (ex_email_length ! 1) LengthRule"
  "\<not> declared (ex_email_length ! 1) CheckboxRule"
  "\<not> declared (ex_email_length ! 1) PhoneRule"
  by (simp_all add: ex_defs read_defs utf16_def)

lemma ex_unconstrained_field: "querySelector ex_unconstrained 0 sel_field = Some 1"
  by (simp add: ex_defs query_defs)

lemma ex_unconstrained_declared: "\<not> declared (ex_unconstrained ! 1) r"
  by (cases r) (simp_all add: ex_defs read_defs)

theorem one_rule_decides_witness:
  "(\<forall>r'. \<not> declared (ex_unconstrained ! 1) r')
   \<and> selected_rule (ex_unconstrained ! 1) = None
   \<and> fst (validateInput ex_unconstrained 0 True False)"
proof -
  have d: "\<forall>r'. \<not> declared (ex_unconstrained ! 1) r'"
    using ex_unconstrained_declared by simp
  from one_rule_decides[of ex_unconstrained 0 True False "ex_unconstrained ! 1" LengthRule] d
  have n: "selected_rule (ex_unconstrained ! 1) = None"
    and v: "fst (validateInput ex_unconstrained 0 True False) =
     (case querySelector ex_unconstrained 0 sel_field of
        None \<Rightarrow> True
      | Some input \<Rightarrow>
          (case selected_rule (ex_unconstrained ! input) of
             None \<Rightarrow> True
           | Some r \<Rightarrow> rule_verdict r (ex_unconstrained ! input)))"
    by blast+
  from v have "fst (validateInput ex_unconstrained 0 True False)"
    unfolding ex_unconstrained_field option.case n by (rule iffD2) (rule TrueI)
  with d n show ?thesis by blast
qed

text \<open>
  C6 as stated fails. A field that declares no constraint passes although each of
  the four rules fails on it, so no rule decides it; and an email field that declares
  a minimum length of 20 passes with the six characters \<^verbatim>\<open>a@b.co\<close>, so the declared
  length constraint does not decide it.
\<close>

theorem one_rule_decides_counterexample:
  "fst (validateInput ex_unconstrained 0 True False)
   \<and> \<not> rule_verdict LengthRule (ex_unconstrained ! 1)
   \<and> \<not> rule_verdict PhoneRule (ex_unconstrained ! 1)
   \<and> \<not> rule_verdict EmailRule (ex_unconstrained ! 1)
   \<and> \<not> rule_verdict CheckboxRule (ex_unconstrained ! 1)
   \<and> declared (ex_email_length ! 1) LengthRule
   \<and> \<not> rule_verdict LengthRule (ex_email_length ! 1)
   \<and> fst (validateInput ex_email_length 0 True False)"
proof -
  have "selected_rule (ex_unconstrained ! 1) = None"
    using ex_unconstrained_declared by (simp add: selected_rule_None)
  then have a: "fst (validateInput ex_unconstrained 0 True False)"
    unfolding validateInput_selected ex_unconstrained_field option.case by simp
  have b: "\<not> rule_verdict LengthRule (ex_unconstrained ! 1)"
    by (simp add: ex_defs read_defs validateLength_def parseInt10_def utf16_def is_space_def
        is_digit_def digits_value_def trim_def js_length_def)
  have c: "\<not> rule_verdict PhoneRule (ex_unconstrained ! 1)"
    by (simp add: ex_defs validatePhone_iff digit_count_def)
  have d: "\<not> rule_verdict EmailRule (ex_unconstrained ! 1)"
    by (simp add: ex_defs validateEmail_def emailRegex_def trim_def Plus_def Chr_def Let_def)
  have e: "\<not> rule_verdict CheckboxRule (ex_unconstrained ! 1)"
    by (simp add: ex_defs validateCheckbox_def)
  have f: "\<not> rule_verdict LengthRule (ex_email_length ! 1)"
    by (simp add: ex_defs read_defs validateLength_def parseInt10_def utf16_def is_space_def
        is_digit_def digits_value_def trim_def js_length_def)
  have "selected_rule (ex_email_length ! 1) = Some EmailRule"
    using ex_email_length_declared by (simp add: selected_rule_def)
  moreover have "rule_verdict EmailRule (ex_email_length ! 1)"
    by (simp add: ex_defs validateEmail_def emailRegex_def trim_def utf16_def is_space_def
        Plus_def Chr_def Let_def)
  ultimately have g: "fst (validateInput ex_email_length 0 True False)"
    unfolding validateInput_selected ex_email_length_field option.case by simp
  from a b c d e f g ex_email_length_declared(2) show ?thesis by blast
qed

subsection \<open>The minimum of the length rule\<close>

lemma parseInt_zero: "parseInt10 (utf16 ''0'') = Num 0"
  by (simp add: parseInt10_def utf16_def is_space_def is_digit_def digits_value_def)

lemma length_rule_empty:
  "getAttribute e ''input-validation-length'' = Some [] \<Longrightarrow>
   rule_verdict LengthRule e = validateLength e (Num 0)"
  by (simp add: or_else_def parseInt_zero)

lemma length_rule_NaN:
  assumes "getAttribute e ''input-validation-length'' = Some v" "v \<noteq> []" "\<not> has_leading_digit v"
  shows "\<not> rule_verdict LengthRule e"
proof -
  have "parseInt10 v = NaN" using assms(3) by (simp add: parseInt_NaN_iff)
  then show ?thesis using assms(1,2) by (simp add: or_else_def validateLength_def js_length_def)
qed

lemma abc_not_numeric: "utf16 ''abc'' \<noteq> [] \<and> \<not> has_leading_digit (utf16 ''abc'')"
  by (simp add: has_leading_digit_def utf16_def is_space_def is_digit_def)

lemma ex_length_abc_with_value:
  "querySelector (ex_length_abc[1 := (ex_length_abc ! 1)\<lparr>val := v\<rparr>]) 0 sel_field = Some 1
   \<and> selected_rule ((ex_length_abc ! 1)\<lparr>val := v\<rparr>) = Some LengthRule
   \<and> getAttribute ((ex_length_abc ! 1)\<lparr>val := v\<rparr>) ''input-validation-length''
       = Some (utf16 ''abc'')"
  by (simp add: selected_rule_def ex_defs query_defs read_defs)

lemma ex_length_abc_fails:
  "\<not> fst (validateInput (ex_length_abc[1 := (ex_length_abc ! 1)\<lparr>val := v\<rparr>]) 0 a b)"
proof -
  let ?s = "ex_length_abc[1 := (ex_length_abc ! 1)\<lparr>val := v\<rparr>]"
  have n: "?s ! 1 = (ex_length_abc ! 1)\<lparr>val := v\<rparr>" by (simp add: ex_defs)
  from ex_length_abc_with_value[of v]
  have q: "querySelector ?s 0 sel_field = Some 1"
    and sr: "selected_rule (?s ! 1) = Some LengthRule"
    and ga: "getAttribute (?s ! 1) ''input-validation-length'' = Some (utf16 ''abc'')"
    unfolding n by blast+
  have r: "\<not> rule_verdict LengthRule (?s ! 1)"
    using length_rule_NaN[OF ga] abc_not_numeric by blast
  show ?thesis
    unfolding validateInput_selected q option.case sr using r .
qed

text \<open>
  C7. The property is that a minimum-length attribute with a value that is not a
  number gives the minimum zero. The code does not do that. The fallback
  \<^verbatim>\<open>|| '0'\<close> of \<open>validateInput\<close> gives zero for an attribute that is empty, but
  for the value \<^verbatim>\<open>abc\<close> the minimum is \<^verbatim>\<open>parseInt('abc', 10)\<close>, which is NaN, and
  no length is greater than NaN: the field fails with the value \<^verbatim>\<open>hello\<close>, which
  the length rule passes against the minimum zero, and it fails with every other value
  as well.
\<close>

theorem length_minimum_not_a_number:
  "getAttribute (ex_length_abc ! 1) ''input-validation-length'' = Some (utf16 ''abc'')
   \<and> val (ex_length_abc ! 1) = utf16 ''hello''
   \<and> parseInt10 (utf16 ''abc'') = NaN
   \<and> \<not> fst (validateInput ex_length_abc 0 showErrors forceShowErrors)
   \<and> validateLength (ex_length_abc ! 1) (Num 0)
   \<and> \<not> fst (validateInput (ex_length_abc[1 := (ex_length_abc ! 1)\<lparr>val := v\<rparr>]) 0
             showErrors forceShowErrors)
   \<and> rule_verdict LengthRule ((ex_length_abc ! 1)\<lparr>attributes := [''input-validation-length'' \<mapsto> []]\<rparr>)"
proof -
  have a: "getAttribute (ex_length_abc ! 1) ''input-validation-length'' = Some (utf16 ''abc'')"
    and b: "val (ex_length_abc ! 1) = utf16 ''hello''"
    by (simp_all add: ex_defs read_defs)
  have c: "parseInt10 (utf16 ''abc'') = NaN"
    using abc_not_numeric by (simp add: parseInt_NaN_iff)
  have "ex_length_abc[1 := (ex_length_abc ! 1)\<lparr>val := utf16 ''hello''\<rparr>] = ex_length_abc"
    by (simp add: ex_defs)
  then have d: "\<not> fst (validateInput ex_length_abc 0 showErrors forceShowErrors)"
    using ex_length_abc_fails[of "utf16 ''hello''" showErrors forceShowErrors] by simp
  have e: "validateLength (ex_length_abc ! 1) (Num 0)"
    by (simp add: ex_defs validateLength_def js_length_def trim_def utf16_def is_space_def)
  have f: "rule_verdict LengthRule
      ((ex_length_abc ! 1)\<lparr>attributes := [''input-validation-length'' \<mapsto> []]\<rparr>)"
    using length_rule_empty[of "(ex_length_abc ! 1)\<lparr>attributes := [''input-validation-length'' \<mapsto> []]\<rparr>"]
    by (simp add: getAttribute_def ex_defs validateLength_def js_length_def trim_def utf16_def
        is_space_def)
  from a b c d e f ex_length_abc_fails[of v showErrors forceShowErrors] show ?thesis by blast
qed

section \<open>The submit control\<close>

lemma validateForm_unfold:
  "validateForm s form a b =
     (form_verdict s form,
      let s1 = snd (validateEach (querySelectorAll s form (sel_class ''input-wrapper'')) a b (True, s))
      in case querySelector s1 form sel_submit of
           None \<Rightarrow> s1
         | Some button \<Rightarrow>
             if form_verdict s form then classList_remove button ''is-disabled'' s1
             else classList_add button ''is-disabled'' s1)"
proof -
  let ?ws = "querySelectorAll s form (sel_class ''input-wrapper'')"
  have v: "fst (validateEach ?ws a b (True, s)) = form_verdict s form"
    by (simp add: fst_validateEach form_verdict_def)
  show ?thesis
    unfolding validateForm_def Let_def split_beta v by (rule refl)
qed

lemma submit_after_validateForm:
  assumes "querySelector (snd (validateForm s form a b)) form sel_submit = Some button"
  shows "(''is-disabled'' \<in> classList (snd (validateForm s form a b) ! button))
         = (\<not> form_verdict s form)"
proof -
  let ?s1 = "snd (validateEach (querySelectorAll s form (sel_class ''input-wrapper'')) a b (True, s))"
  let ?s' = "snd (validateForm s form a b)"
  have f: "frame ?s' = frame ?s1"
    by (simp add: validateForm_unfold Let_def frame_writes split: option.splits)
  have q: "querySelector ?s1 form sel_submit = Some button"
    using querySelector_frame[OF f static_sel_submit, of form] assms by simp
  then have "button < length ?s1" by (rule querySelector_lt)
  then show ?thesis
    by (simp add: validateForm_unfold Let_def q classList_add_classList
        classList_remove_classList)
qed

lemma form_verdict_frame:
  assumes "frame s = frame s'"
  shows "form_verdict s form = form_verdict s' form"
proof -
  have "querySelectorAll s form (sel_class ''input-wrapper'')
        = querySelectorAll s' form (sel_class ''input-wrapper'')"
    using assms static_sel_wrapper by (rule querySelectorAll_frame)
  then show ?thesis
    unfolding form_verdict_def list_all_iff wrapper_verdict_frame[OF assms] by simp
qed

lemma form_verdict_all:
  "form_verdict s form
   = (\<forall>w \<in> set (querySelectorAll s form (sel_class ''input-wrapper'')).
        fst (validateInput s w a b))"
  by (simp add: form_verdict_def list_all_iff fst_validateInput)

text \<open>
  C8, as amended. A pass of \<open>validateForm\<close> returns the conjunction of the verdicts
  of the fields of the form, and the submit control that the form has after the pass
  carries the class \<^verbatim>\<open>is-disabled\<close> if and only if that conjunction is false. In a
  document where no element that holds an error text has a child element or is a text
  area, the form has the same submit control after the pass as before, and a second
  pass, with any display flags, returns the same verdict and leaves the control as the
  first pass left it.
\<close>

theorem submit_state_is_form_verdict:
  "fst (validateForm s form a b)
     = (\<forall>w \<in> set (querySelectorAll s form (sel_class ''input-wrapper'')).
          fst (validateInput s w a b))
   \<and> (querySelector (snd (validateForm s form a b)) form sel_submit = Some button \<longrightarrow>
        (''is-disabled'' \<in> classList (snd (validateForm s form a b) ! button))
          = (\<not> fst (validateForm s form a b)))
   \<and> (holders_plain s \<longrightarrow>
        querySelector (snd (validateForm s form a b)) form sel_submit
          = querySelector s form sel_submit
      \<and> fst (validateForm (snd (validateForm s form a b)) form a' b')
          = fst (validateForm s form a b)
      \<and> querySelector (snd (validateForm (snd (validateForm s form a b)) form a' b')) form
           sel_submit
          = querySelector s form sel_submit
      \<and> (querySelector s form sel_submit = Some button \<longrightarrow>
           (''is-disabled'' \<in> classList
              (snd (validateForm (snd (validateForm s form a b)) form a' b') ! button))
             = (''is-disabled'' \<in> classList (snd (validateForm s form a b) ! button))))"
proof (intro conjI impI)
  show "fst (validateForm s form a b)
     = (\<forall>w \<in> set (querySelectorAll s form (sel_class ''input-wrapper'')).
          fst (validateInput s w a b))"
    unfolding fst_validateForm by (rule form_verdict_all)
next
  assume "querySelector (snd (validateForm s form a b)) form sel_submit = Some button"
  then show "(''is-disabled'' \<in> classList (snd (validateForm s form a b) ! button))
          = (\<not> fst (validateForm s form a b))"
    unfolding fst_validateForm by (rule submit_after_validateForm)
next
  let ?s' = "snd (validateForm s form a b)"
  let ?s'' = "snd (validateForm ?s' form a' b')"
  assume h: "holders_plain s"
  have f: "frame ?s' = frame s" using h by (rule frame_validateForm)
  then have h': "holders_plain ?s'" using h holders_plain_frame by blast
  have f': "frame ?s'' = frame s" using frame_validateForm[OF h', of form a' b'] f by simp
  show q: "querySelector ?s' form sel_submit = querySelector s form sel_submit"
    using f static_sel_submit by (rule querySelector_frame)
  show v: "fst (validateForm ?s' form a' b') = fst (validateForm s form a b)"
    unfolding fst_validateForm using f by (rule form_verdict_frame)
  show q': "querySelector ?s'' form sel_submit = querySelector s form sel_submit"
    using f' static_sel_submit by (rule querySelector_frame)
  assume b: "querySelector s form sel_submit = Some button"
  have "(''is-disabled'' \<in> classList (?s'' ! button)) = (\<not> form_verdict ?s' form)"
    using q' b by (intro submit_after_validateForm) simp
  moreover have "(''is-disabled'' \<in> classList (?s' ! button)) = (\<not> form_verdict s form)"
    using q b by (intro submit_after_validateForm) simp
  ultimately show "(''is-disabled'' \<in> classList (?s'' ! button))
             = (''is-disabled'' \<in> classList (?s' ! button))"
    using form_verdict_frame[OF f, of form] by simp
qed

section \<open>The error display after a pass\<close>

lemma length_checkbox_step [simp]: "length (checkbox_step s w input c) = length s"
  by (simp add: checkbox_step_def split: option.splits)

lemma checkbox_step_attributes [simp]:
  "attributes (checkbox_step s w input c ! i) = attributes (s ! i)"
  by (simp add: checkbox_step_def split: option.splits)

lemma checkbox_step_textContent [simp]:
  "textContent (checkbox_step s w input c ! i) = textContent (s ! i)"
  by (simp add: checkbox_step_def split: option.splits)

lemma checkbox_step_classList:
  "classList (checkbox_step s w input c ! i)
   = (if hasAttribute (s ! input) ''input-validation-checkbox''
         \<and> querySelector s w (sel_class ''w-checkbox-input'') = Some i
      then (if c then insert ''is-error'' (classList (s ! i)) else classList (s ! i) - {''is-error''})
      else classList (s ! i))"
proof (cases "querySelector s w (sel_class ''w-checkbox-input'')")
  case None
  then show ?thesis by (simp add: checkbox_step_def)
next
  case (Some box)
  then have "box < length s" by (rule querySelector_lt)
  with Some show ?thesis
    by (simp add: checkbox_step_def classList_add_classList classList_remove_classList)
qed

lemma error_target_cases:
  "error_target s w input = input
   \<or> querySelector s w (sel_class ''w-checkbox-input'') = Some (error_target s w input)"
  by (simp add: error_target_def split: option.splits)

lemma error_target_lt:
  assumes "querySelector s w sel_field = Some input"
  shows "error_target s w input < length s"
  using error_target_cases[of s w input] querySelector_lt[OF assms]
    querySelector_lt[of s w "sel_class ''w-checkbox-input''" "error_target s w input"]
  by metis

lemma error_target_in_wrapper:
  assumes "querySelector s w sel_field = Some input"
  shows "error_target s w input \<in> set (descendants s w)"
  using error_target_cases[of s w input] querySelector_SomeD[OF assms]
    querySelector_SomeD[of s w "sel_class ''w-checkbox-input''" "error_target s w input"]
  by metis

lemma static_input_type:
  "static e = static e' \<Longrightarrow> input_type_is e t = input_type_is e' t"
  unfolding input_type_is_def using static_tagName[of e e'] static_type_attr[of e e' t]
  by simp

lemma error_target_frame:
  assumes "frame s = frame s'" "input < length s"
  shows "error_target s w input = error_target s' w input"
proof -
  have "static (s ! input) = static (s' ! input)" using assms by (rule frame_nth)
  then have "input_type_is (s ! input) ''checkbox'' = input_type_is (s' ! input) ''checkbox''"
    by (rule static_input_type)
  moreover have "querySelector s w (sel_class ''w-checkbox-input'')
      = querySelector s' w (sel_class ''w-checkbox-input'')"
    using assms(1) static_sel_box by (rule querySelector_frame)
  ultimately show ?thesis by (simp add: error_target_def)
qed

subsection \<open>What the presenting step leaves\<close>

lemma frame_present:
  assumes "v \<or> holders_plain s"
  shows "frame (present s w input g v) = frame s"
proof -
  have f1: "frame (checkbox_step s w input c) = frame s" for c by (rule frame_checkbox_step)
  have "frame (showError (checkbox_step s w input c) w t) = frame s" if "\<not> v" for t c
  proof -
    from that assms have "holders_plain s" by simp
    then have "holders_plain (checkbox_step s w input c)"
      using holders_plain_frame[OF f1] by simp
    then show ?thesis using f1 by (simp add: frame_showError)
  qed
  then show ?thesis by (simp add: present_def Let_def frame_hideError f1)
qed

lemma label_query_checkbox_step:
  "querySelector (checkbox_step s w input c) w (sel_class ''input-error-label'')
   = querySelector s w (sel_class ''input-error-label'')"
  by (rule querySelector_frame) (simp_all add: frame_checkbox_step static_sel_label)

lemma present_class:
  assumes "error_target s w input < length s" and g
  shows "(''is-error'' \<in> classList (present s w input g v ! error_target s w input)) = (\<not> v)"
  using assms by (simp add: present_def Let_def showError_classList hideError_classList)

lemma present_label:
  assumes g and "querySelector s w (sel_class ''input-error-label'') = Some label"
  shows "attributes (present s w input g v ! label) ''style''
         = Some (if v then utf16 ''display: none;'' else utf16 ''display: flex;'')"
  using assms
  by (simp add: present_def Let_def showError_attributes hideError_attributes
      label_query_checkbox_step)






lemma error_class_shown_present:
  assumes q: "querySelector s w sel_field = Some input" and g: g
    and h: "holders_plain s"
  shows "error_class_shown (present s w input g v) w = (\<not> v)"
proof -
  let ?s' = "present s w input g v"
  have f: "frame ?s' = frame s" using h by (intro frame_present) simp
  have q': "querySelector ?s' w sel_field = Some input"
    using querySelector_frame[OF f static_sel_field, of w] q by simp
  have "input < length ?s'" using q' by (rule querySelector_lt)
  then have t: "error_target ?s' w input = error_target s w input"
    using f by (intro error_target_frame)
  show ?thesis
    unfolding error_class_shown_def q' option.case t
    using error_target_lt[OF q] g by (rule present_class)
qed

lemma display_values_differ: "utf16 ''display: none;'' \<noteq> utf16 ''display: flex;''"
  by (simp add: utf16_def)

lemma error_label_shown_present:
  assumes g: g and l: "querySelector s w (sel_class ''input-error-label'') = Some label"
    and h: "holders_plain s"
  shows "error_label_shown (present s w input g v) w = (\<not> v)"
proof -
  let ?s' = "present s w input g v"
  have f: "frame ?s' = frame s" using h by (intro frame_present) simp
  have l': "querySelector ?s' w (sel_class ''input-error-label'') = Some label"
    using querySelector_frame[OF f static_sel_label, of w] l by simp
  show ?thesis
    unfolding error_label_shown_def l' option.case present_label[OF g l]
    using display_values_differ by simp
qed

subsection \<open>After a pass of validateForm.ts\<close>

lemma class_after_pass:
  assumes q: "querySelector s w sel_field = Some input" and g: "display_gate s input a b"
  shows "(''is-error'' \<in> classList (snd (validateInput s w a b) ! error_target s w input))
         = (\<not> field_verdict (s ! input))"
  unfolding validateInput_present[OF q] snd_conv
  using error_target_lt[OF q] g by (rule present_class)

lemma error_class_shown_after:
  assumes q: "querySelector s w sel_field = Some input" and g: "display_gate s input a b"
    and h: "holders_plain s"
  shows "error_class_shown (snd (validateInput s w a b)) w = (\<not> fst (validateInput s w a b))"
  unfolding validateInput_present[OF q] snd_conv fst_conv
  using q g h by (rule error_class_shown_present)

lemma error_label_shown_after:
  assumes q: "querySelector s w sel_field = Some input" and g: "display_gate s input a b"
    and l: "querySelector s w (sel_class ''input-error-label'') = Some label"
    and h: "holders_plain s"
  shows "error_label_shown (snd (validateInput s w a b)) w = (\<not> fst (validateInput s w a b))"
  unfolding validateInput_present[OF q] snd_conv fst_conv
  using g l h by (rule error_label_shown_present)


lemma ex_form_field: "querySelector ex_form 1 sel_field = Some 2"
  by (simp add: ex_defs query_defs)




lemma ex_form_fails: "\<not> fst (validateInput ex_form 1 a b)"
  unfolding validateInput_selected ex_form_field option.case
  by (simp add: selected_rule_def ex_defs read_defs rule_defs)



subsection \<open>The display of the example forms\<close>






subsection \<open>The submit control of the example forms\<close>

lemma ex_form_submit: "querySelector ex_form 0 sel_submit = Some 7"
  by (simp add: ex_defs query_defs read_defs utf16_def)

lemma ex_form_wrappers: "querySelectorAll ex_form 0 (sel_class ''input-wrapper'') = [1, 5]"
  by (simp add: ex_defs query_defs)

lemma ex_form_holders: "holders_plain ex_form"
  by (simp add: holders_plain_def ex_defs query_defs read_defs)

theorem submit_state_is_form_verdict_witness:
  "holders_plain ex_form
   \<and> querySelector ex_form 0 sel_submit = Some 7
   \<and> querySelector (snd (validateForm ex_form 0 True True)) 0 sel_submit = Some 7
   \<and> \<not> fst (validateForm ex_form 0 True True)
   \<and> ''is-disabled'' \<in> classList (snd (validateForm ex_form 0 True True) ! 7)
   \<and> \<not> fst (validateForm (snd (validateForm ex_form 0 True True)) 0 True False)
   \<and> ''is-disabled'' \<in> classList
         (snd (validateForm (snd (validateForm ex_form 0 True True)) 0 True False) ! 7)"
proof -
  note t = submit_state_is_form_verdict[of ex_form 0 True True 7 True False]
  have "1 \<in> set (querySelectorAll ex_form 0 (sel_class ''input-wrapper''))"
    by (simp add: ex_form_wrappers)
  then have "\<not> (\<forall>w \<in> set (querySelectorAll ex_form 0 (sel_class ''input-wrapper'')).
                fst (validateInput ex_form w True True))"
    using ex_form_fails[of True True] by blast
  with t have n: "\<not> fst (validateForm ex_form 0 True True)" by blast
  from t ex_form_holders ex_form_submit
  have q: "querySelector (snd (validateForm ex_form 0 True True)) 0 sel_submit = Some 7"
    by simp
  from t n q ex_form_holders ex_form_submit show ?thesis by blast
qed

text \<open>
  C8 as stated fails in its second half. In the form whose field is marked up inside
  the holder of its error text, the first pass fails the field and disables the submit
  control (element 5); showing the error writes the text into the holder, which removes
  the field from the document. No value has changed, but the second pass finds no field
  in the wrapper: it returns true and enables the submit control.
\<close>

theorem submit_state_counterexample:
  "\<not> fst (validateForm ex_field_in_holder 0 True True)
   \<and> ''is-disabled'' \<in> classList (snd (validateForm ex_field_in_holder 0 True True) ! 5)
   \<and> map val (snd (validateForm ex_field_in_holder 0 True True)) = map val ex_field_in_holder
   \<and> fst (validateForm (snd (validateForm ex_field_in_holder 0 True True)) 0 True True)
   \<and> ''is-disabled'' \<notin> classList
         (snd (validateForm (snd (validateForm ex_field_in_holder 0 True True)) 0 True True) ! 5)"
  by (simp add: run_defs ex_defs query_defs read_defs write_defs rule_defs)

section \<open>Missing elements\<close>

lemma no_label_writes:
  assumes "querySelector s w (sel_class ''input-error-label'') = None"
  shows "attributes (snd (validateInput s w a b) ! i) = attributes (s ! i)
       \<and> textContent (snd (validateInput s w a b) ! i) = textContent (s ! i)"
proof (cases "querySelector s w sel_field")
  case None
  then show ?thesis by (simp add: validateInput_None)
next
  case (Some input)
  have "querySelector (checkbox_step s w input c) w (sel_class ''input-error-label'')
        = querySelector s w (sel_class ''input-error-label'')" for c
    by (rule querySelector_frame) (simp_all add: frame_checkbox_step static_sel_label)
  then have n: "querySelector (checkbox_step s w input c) w (sel_class ''input-error-label'') = None"
    for c using assms by simp
  show ?thesis
    by (simp add: validateInput_Some[OF Some] Let_def showError_no_label[OF n]
        hideError_no_label[OF n])
qed

text \<open>
  C9, as amended. A wrapper without input or textarea passes, and its pass changes
  nothing. In a wrapper without error label only the label is left out of the
  presentation: the pass writes no style and no text, the verdict is that of the rule
  of the field, and the error class is still set on the field, or taken from it, as in
  a wrapper with a label.
\<close>

theorem missing_elements:
  "(querySelector s w sel_field = None \<longrightarrow>
      validateInput s w showErrors forceShowErrors = (True, s))
   \<and> (querySelector s w (sel_class ''input-error-label'') = None \<longrightarrow>
        fst (validateInput s w showErrors forceShowErrors) = wrapper_verdict s w
      \<and> (\<forall>i. attributes (snd (validateInput s w showErrors forceShowErrors) ! i)
                = attributes (s ! i)
             \<and> textContent (snd (validateInput s w showErrors forceShowErrors) ! i)
                = textContent (s ! i))
      \<and> (\<forall>input. querySelector s w sel_field = Some input
             \<and> showErrors \<and> (hasAttribute (s ! input) ''data-touched'' \<or> forceShowErrors)
           \<longrightarrow> (''is-error'' \<in> classList
                   (snd (validateInput s w showErrors forceShowErrors) ! error_target s w input))
                = (\<not> fst (validateInput s w showErrors forceShowErrors))))"
proof (intro conjI impI allI)
  assume "querySelector s w sel_field = None"
  then show "validateInput s w showErrors forceShowErrors = (True, s)"
    by (rule validateInput_None)
next
  show "fst (validateInput s w showErrors forceShowErrors) = wrapper_verdict s w"
    by (rule fst_validateInput)
next
  fix i
  assume n: "querySelector s w (sel_class ''input-error-label'') = None"
  show "attributes (snd (validateInput s w showErrors forceShowErrors) ! i) = attributes (s ! i)"
    using no_label_writes[OF n] by blast
  show "textContent (snd (validateInput s w showErrors forceShowErrors) ! i) = textContent (s ! i)"
    using no_label_writes[OF n] by blast
next
  fix input
  assume "querySelector s w sel_field = Some input
     \<and> showErrors \<and> (hasAttribute (s ! input) ''data-touched'' \<or> forceShowErrors)"
  then have q: "querySelector s w sel_field = Some input"
    and g: "display_gate s input showErrors forceShowErrors"
    by (simp_all add: display_gate_def)
  show "(''is-error'' \<in> classList
           (snd (validateInput s w showErrors forceShowErrors) ! error_target s w input))
        = (\<not> fst (validateInput s w showErrors forceShowErrors))"
    unfolding class_after_pass[OF q g] by (simp add: validateInput_Some[OF q])
qed

lemma ex_no_label_field: "querySelector ex_no_label 0 sel_field = Some 1"
  by (simp add: ex_defs query_defs)

lemma ex_no_label_label: "querySelector ex_no_label 0 (sel_class ''input-error-label'') = None"
  by (simp add: ex_defs query_defs)

lemma ex_no_label_touched: "hasAttribute (ex_no_label ! 1) ''data-touched''"
  by (simp add: ex_defs read_defs)

lemma ex_no_label_target: "error_target ex_no_label 0 1 = 1"
  by (simp add: error_target_def ex_defs read_defs)

lemma ex_no_label_fails: "\<not> fst (validateInput ex_no_label 0 a b)"
  unfolding validateInput_selected ex_no_label_field option.case
  by (simp add: selected_rule_def ex_defs read_defs rule_defs)

lemma ex_unconstrained_no_field: "querySelector ex_unconstrained 1 sel_field = None"
  by (simp add: ex_defs query_defs)

theorem missing_elements_witness:
  "querySelector ex_unconstrained 1 sel_field = None
   \<and> validateInput ex_unconstrained 1 True True = (True, ex_unconstrained)
   \<and> querySelector ex_no_label 0 (sel_class ''input-error-label'') = None
   \<and> querySelector ex_no_label 0 sel_field = Some 1
   \<and> hasAttribute (ex_no_label ! 1) ''data-touched''
   \<and> attributes (snd (validateInput ex_no_label 0 True False) ! 1) = attributes (ex_no_label ! 1)
   \<and> ''is-error'' \<in> classList (snd (validateInput ex_no_label 0 True False) ! 1)"
proof -
  from missing_elements[of ex_unconstrained 1 True True] ex_unconstrained_no_field
  have a: "validateInput ex_unconstrained 1 True True = (True, ex_unconstrained)" by blast
  from missing_elements[of ex_no_label 0 True False] ex_no_label_label
  have b: "attributes (snd (validateInput ex_no_label 0 True False) ! 1) = attributes (ex_no_label ! 1)"
    and c: "\<forall>input. querySelector ex_no_label 0 sel_field = Some input
             \<and> True \<and> (hasAttribute (ex_no_label ! input) ''data-touched'' \<or> False)
           \<longrightarrow> (''is-error'' \<in> classList
                   (snd (validateInput ex_no_label 0 True False) ! error_target ex_no_label 0 input))
                = (\<not> fst (validateInput ex_no_label 0 True False))"
    by blast+
  from c ex_no_label_field ex_no_label_touched ex_no_label_fails[of True False]
  have "''is-error'' \<in> classList
          (snd (validateInput ex_no_label 0 True False) ! error_target ex_no_label 0 1)"
    by blast
  then have d: "''is-error'' \<in> classList (snd (validateInput ex_no_label 0 True False) ! 1)"
    unfolding ex_no_label_target .
  from a b d ex_unconstrained_no_field ex_no_label_label ex_no_label_field ex_no_label_touched
  show ?thesis by blast
qed

text \<open>
  C9 as stated fails in its second half: in a wrapper without error label the pass
  over a touched field that fails its rule does present, by the error class that the
  field did not have before.
\<close>

theorem missing_label_counterexample:
  "querySelector ex_no_label 0 (sel_class ''input-error-label'') = None
   \<and> ''is-error'' \<notin> classList (ex_no_label ! 1)
   \<and> ''is-error'' \<in> classList (snd (validateInput ex_no_label 0 True False) ! 1)"
proof -
  have g: "display_gate ex_no_label 1 True False"
    using ex_no_label_touched by (simp add: display_gate_def)
  have "''is-error'' \<in> classList
          (snd (validateInput ex_no_label 0 True False) ! error_target ex_no_label 0 1)"
    unfolding class_after_pass[OF ex_no_label_field g]
    using ex_no_label_fails[of True False] by (simp add: validateInput_Some[OF ex_no_label_field])
  then have a: "''is-error'' \<in> classList (snd (validateInput ex_no_label 0 True False) ! 1)"
    unfolding ex_no_label_target .
  have b: "''is-error'' \<notin> classList (ex_no_label ! 1)"
    by (simp add: ex_defs)
  from a b ex_no_label_label show ?thesis by blast
qed

section \<open>A submission attempt\<close>

subsection \<open>A pass writes inside its wrapper\<close>

lemma checkbox_step_outside:
  "i \<notin> set (descendants s w) \<Longrightarrow> classList (checkbox_step s w input c ! i) = classList (s ! i)"
  using querySelector_SomeD[of s w "sel_class ''w-checkbox-input''" i]
  by (auto simp: checkbox_step_classList)

lemma validateInput_outside:
  assumes "i \<notin> set (descendants s w)"
  shows "classList (snd (validateInput s w a b) ! i) = classList (s ! i)
       \<and> attributes (snd (validateInput s w a b) ! i) = attributes (s ! i)"
proof (cases "querySelector s w sel_field")
  case None
  then show ?thesis by (simp add: validateInput_None)
next
  case (Some input)
  have t: "error_target s w input \<noteq> i"
    using error_target_in_wrapper[OF Some] assms by blast
  have l: "querySelector (checkbox_step s w input c) w (sel_class ''input-error-label'')
        = querySelector s w (sel_class ''input-error-label'')" for c
    by (rule querySelector_frame) (simp_all add: frame_checkbox_step static_sel_label)
  have n: "querySelector s w (sel_class ''input-error-label'') \<noteq> Some i"
    using querySelector_SomeD[of s w "sel_class ''input-error-label''" i] assms by blast
  show ?thesis
    using t n checkbox_step_outside[OF assms]
    by (simp add: validateInput_Some[OF Some] Let_def showError_classList hideError_classList
        showError_attributes hideError_attributes l)
qed

lemma validateEach_outside:
  assumes "frame s = frame s0" "\<forall>w \<in> set ws. i \<notin> set (descendants s0 w)"
    and "holders_plain s0"
  shows "classList (snd (validateEach ws a b (acc, s)) ! i) = classList (s ! i)
       \<and> attributes (snd (validateEach ws a b (acc, s)) ! i) = attributes (s ! i)"
  using assms
proof (induction ws arbitrary: acc s)
  case Nil
  show ?case by simp
next
  case (Cons w ws)
  let ?s1 = "snd (validateInput s w a b)"
  have h: "holders_plain s"
    using Cons.prems(3) holders_plain_frame[OF Cons.prems(1)] by simp
  have f: "frame ?s1 = frame s0" using Cons.prems(1) h by (simp add: frame_validateInput)
  have "i \<notin> set (descendants s w)"
    using Cons.prems descendants_frame[of s s0 w] by simp
  then have o: "classList (?s1 ! i) = classList (s ! i) \<and> attributes (?s1 ! i) = attributes (s ! i)"
    by (rule validateInput_outside)
  have "\<forall>w \<in> set ws. i \<notin> set (descendants s0 w)" using Cons.prems(2) by simp
  from Cons.IH[OF f this Cons.prems(3)] o show ?case
    by (simp add: split_beta Let_def)
qed

subsection \<open>The display depends on the wrapper alone\<close>

lemma error_class_shown_cong:
  assumes f: "frame s = frame s'"
    and c: "\<forall>i \<in> set (descendants s w).
              (''is-error'' \<in> classList (s ! i)) = (''is-error'' \<in> classList (s' ! i))"
  shows "error_class_shown s w = error_class_shown s' w"
proof (cases "querySelector s w sel_field")
  case None
  moreover have "querySelector s' w sel_field = querySelector s w sel_field"
    using querySelector_frame[OF f static_sel_field, of w] by simp
  ultimately show ?thesis by (simp add: error_class_shown_def)
next
  case (Some input)
  have q': "querySelector s' w sel_field = Some input"
    using querySelector_frame[OF f static_sel_field, of w] Some by simp
  have "input < length s" using Some by (rule querySelector_lt)
  then have t: "error_target s' w input = error_target s w input"
    using f by (simp add: error_target_frame)
  have "error_target s w input \<in> set (descendants s w)"
    using Some by (rule error_target_in_wrapper)
  with c show ?thesis
    unfolding error_class_shown_def Some q' option.case t by blast
qed

lemma error_label_shown_cong:
  assumes f: "frame s = frame s'"
    and c: "\<forall>i \<in> set (descendants s w). attributes (s ! i) = attributes (s' ! i)"
  shows "error_label_shown s w = error_label_shown s' w"
proof -
  have l: "querySelector s' w (sel_class ''input-error-label'')
           = querySelector s w (sel_class ''input-error-label'')"
    using querySelector_frame[OF f static_sel_label, of w] by simp
  show ?thesis
  proof (cases "querySelector s w (sel_class ''input-error-label'')")
    case None
    then show ?thesis by (simp add: error_label_shown_def l)
  next
    case (Some label)
    then have "label \<in> set (descendants s w)" using querySelector_SomeD by blast
    with c have "attributes (s ! label) = attributes (s' ! label)" by blast
    then show ?thesis unfolding error_label_shown_def l Some option.case by simp
  qed
qed

lemma shows_error_cong:
  assumes f: "frame s = frame s'"
    and c: "\<forall>i \<in> set (descendants s w).
              (''is-error'' \<in> classList (s ! i)) = (''is-error'' \<in> classList (s' ! i))
              \<and> attributes (s ! i) = attributes (s' ! i)"
  shows "shows_error s w = shows_error s' w"
proof -
  have "error_class_shown s w = error_class_shown s' w"
    using f c by (intro error_class_shown_cong) blast+
  moreover have "error_label_shown s w = error_label_shown s' w"
    using f c by (intro error_label_shown_cong) blast+
  moreover have "querySelector s' w (sel_class ''input-error-label'')
           = querySelector s w (sel_class ''input-error-label'')"
    using querySelector_frame[OF f static_sel_label, of w] by simp
  ultimately show ?thesis by (simp add: shows_error_def)
qed


subsection \<open>The first match\<close>

lemma filter_sorted_first:
  fixes xs :: "nat list"
  assumes "sorted xs" "filter P xs = t # ys"
  shows "P t \<and> t \<in> set xs \<and> (\<forall>k \<in> set xs. k < t \<longrightarrow> \<not> P k)"
proof -
  from assms(2) obtain us vs where x: "xs = us @ t # vs" and u: "\<forall>u \<in> set us. \<not> P u"
    and p: "P t"
    by (auto simp: filter_eq_Cons_iff)
  have "sorted (us @ t # vs)" using assms(1) x by simp
  then have "\<forall>v \<in> set vs. t \<le> v" by (simp add: sorted_append)
  then have "\<forall>k \<in> set (us @ t # vs). k < t \<longrightarrow> k \<in> set us" by auto
  then have "\<forall>k \<in> set xs. k < t \<longrightarrow> \<not> P k" using u x by metis
  moreover have "t \<in> set xs" using x by (metis in_set_conv_decomp)
  ultimately show ?thesis using p by blast
qed

lemma sorted_descendants: "sorted (descendants s r)"
  by (simp add: descendants_def sorted_wrt_filter)

lemma querySelector_first:
  assumes "querySelector s r sel = Some t"
  shows "t \<in> set (descendants s r) \<and> sel (s ! t)
       \<and> (\<forall>k \<in> set (descendants s r). k < t \<longrightarrow> \<not> sel (s ! k))"
proof -
  from assms obtain ys where "querySelectorAll s r sel = t # ys"
    by (auto simp: querySelector_def split: list.splits)
  then have "filter (\<lambda>j. sel (s ! j)) (descendants s r) = t # ys"
    by (simp add: querySelectorAll_def)
  from filter_sorted_first[OF sorted_descendants this] show ?thesis by simp
qed

lemma querySelector_exists:
  assumes "j \<in> set (descendants s r)" "sel (s ! j)"
  shows "\<exists>t. querySelector s r sel = Some t"
proof -
  have "j \<in> set (querySelectorAll s r sel)" using assms by (simp add: querySelectorAll_def)
  then have "querySelectorAll s r sel \<noteq> []" by auto
  then show ?thesis by (simp add: querySelector_def split: list.splits)
qed

lemma distinct_querySelectorAll: "distinct (querySelectorAll s r sel)"
  by (simp add: querySelectorAll_def descendants_def)

subsection \<open>Every failing wrapper is shown\<close>

lemma forced_pass_shows:
  assumes "\<not> wrapper_verdict s w" and h: "holders_plain s"
  shows "shows_error (snd (validateInput s w True True)) w"
proof -
  from assms obtain input where q: "querySelector s w sel_field = Some input"
    by (auto simp: wrapper_verdict_def split: option.splits)
  have g: "display_gate s input True True" by (simp add: display_gate_def)
  have v: "\<not> fst (validateInput s w True True)" using assms by (simp add: fst_validateInput)
  let ?s' = "snd (validateInput s w True True)"
  have f: "frame ?s' = frame s" using h by (intro frame_validateInput) simp
  have l: "querySelector ?s' w (sel_class ''input-error-label'')
           = querySelector s w (sel_class ''input-error-label'')"
    using f static_sel_label by (rule querySelector_frame)
  have c: "error_class_shown ?s' w"
    using error_class_shown_after[OF q g h] v by simp
  have "error_label_shown ?s' w"
    if "querySelector s w (sel_class ''input-error-label'') \<noteq> None"
  proof -
    from that obtain label where "querySelector s w (sel_class ''input-error-label'') = Some label"
      by blast
    from error_label_shown_after[OF q g this h] v show ?thesis by simp
  qed
  with c show ?thesis unfolding shows_error_def l by blast
qed

lemma validateEach_shows:
  assumes "frame s = frame s0" "distinct ws"
    and "\<forall>w \<in> set ws. \<forall>w' \<in> set ws. w \<noteq> w' \<longrightarrow>
           set (descendants s0 w) \<inter> set (descendants s0 w') = {}"
    and "w \<in> set ws" "\<not> wrapper_verdict s0 w"
    and "holders_plain s0"
  shows "shows_error (snd (validateEach ws True True (acc, s))) w"
  using assms
proof (induction ws arbitrary: acc s)
  case Nil
  then show ?case by simp
next
  case (Cons w0 ws)
  let ?s1 = "snd (validateInput s w0 True True)"
  let ?acc1 = "if \<not> fst (validateInput s w0 True True) then False else acc"
  have h: "holders_plain s"
    using Cons.prems(6) holders_plain_frame[OF Cons.prems(1)] by simp
  have f0: "frame ?s1 = frame s" using h by (intro frame_validateInput) simp
  have h1: "holders_plain ?s1" using h holders_plain_frame[OF f0] by simp
  have f1: "frame ?s1 = frame s0" using Cons.prems(1) f0 by simp
  have step: "snd (validateEach (w0 # ws) True True (acc, s))
              = snd (validateEach ws True True (?acc1, ?s1))"
    by (simp add: split_beta Let_def)
  have sep: "\<forall>w \<in> set ws. \<forall>w' \<in> set ws. w \<noteq> w' \<longrightarrow>
           set (descendants s0 w) \<inter> set (descendants s0 w') = {}"
    using Cons.prems(3) by simp
  show ?case
  proof (cases "w = w0")
    case True
    have "\<not> wrapper_verdict s w0"
      using Cons.prems(5) True wrapper_verdict_frame[OF Cons.prems(1), of w0] by simp
    then have sh: "shows_error ?s1 w0" using h by (rule forced_pass_shows)
    let ?s2 = "snd (validateEach ws True True (?acc1, ?s1))"
    have f2: "frame ?s1 = frame ?s2" using h1 by (simp add: frame_validateEach)
    have "classList (?s2 ! i) = classList (?s1 ! i) \<and> attributes (?s2 ! i) = attributes (?s1 ! i)"
      if i: "i \<in> set (descendants ?s1 w0)" for i
    proof -
      have i0: "i \<in> set (descendants s0 w0)" using i descendants_frame[OF f1, of w0] by simp
      have "\<forall>w' \<in> set ws. i \<notin> set (descendants s0 w')"
      proof
        fix w' assume w': "w' \<in> set ws"
        then have "w0 \<noteq> w'" using Cons.prems(2) by auto
        then have "set (descendants s0 w0) \<inter> set (descendants s0 w') = {}"
          using Cons.prems(3) w' by simp
        with i0 show "i \<notin> set (descendants s0 w')" by blast
      qed
      with f1 show ?thesis using Cons.prems(6) by (rule validateEach_outside)
    qed
    then have "\<forall>i \<in> set (descendants ?s1 w0).
        (''is-error'' \<in> classList (?s1 ! i)) = (''is-error'' \<in> classList (?s2 ! i))
        \<and> attributes (?s1 ! i) = attributes (?s2 ! i)"
      by simp
    with f2 have "shows_error ?s1 w0 = shows_error ?s2 w0" by (rule shows_error_cong)
    with sh True show ?thesis unfolding step by simp
  next
    case False
    then have "w \<in> set ws" using Cons.prems(4) by simp
    moreover have "distinct ws" using Cons.prems(2) by simp
    ultimately show ?thesis
      unfolding step using Cons.IH[OF f1 _ sep _ Cons.prems(5,6)] by blast
  qed
qed


subsection \<open>The submit handler\<close>

lemma on_submit_eq:
  "on_submit s form =
     (if \<not> form_verdict s form
      then (snd (validateForm s form True True),
            \<lparr>defaultPrevented = True, propagationStopped = True\<rparr>,
            querySelector (snd (validateForm s form True True)) form (sel_class ''is-error''))
      else (snd (validateForm s form True True),
            \<lparr>defaultPrevented = False, propagationStopped = False\<rparr>, None))"
  using fst_validateForm[of s form True True]
  by (simp add: on_submit_def split_beta Let_def)

lemma validateForm_after_each:
  "(''is-error'' \<in> classList (snd (validateForm s form a b) ! i))
     = (''is-error'' \<in> classList
          (snd (validateEach (querySelectorAll s form (sel_class ''input-wrapper'')) a b (True, s)) ! i))
   \<and> attributes (snd (validateForm s form a b) ! i)
     = attributes
          (snd (validateEach (querySelectorAll s form (sel_class ''input-wrapper'')) a b (True, s)) ! i)"
  by (simp add: validateForm_def Let_def split_beta classList_add_classList
      classList_remove_classList split: option.splits)

lemma validateForm_shows:
  assumes "separate_wrappers s form"
    and "w \<in> set (querySelectorAll s form (sel_class ''input-wrapper''))"
    and "\<not> wrapper_verdict s w"
    and "holders_plain s"
  shows "shows_error (snd (validateForm s form True True)) w"
proof -
  let ?ws = "querySelectorAll s form (sel_class ''input-wrapper'')"
  let ?s1 = "snd (validateEach ?ws True True (True, s))"
  let ?s' = "snd (validateForm s form True True)"
  have "shows_error ?s1 w"
    using refl distinct_querySelectorAll assms(1)[unfolded separate_wrappers_def] assms(2,3,4)
    by (rule validateEach_shows)
  moreover have "frame ?s1 = frame ?s'"
    using assms(4) by (simp add: frame_validateEach frame_validateForm)
  then have "shows_error ?s1 w = shows_error ?s' w"
    using validateForm_after_each[of s form True True] by (intro shows_error_cong) simp_all
  ultimately show ?thesis by simp
qed

lemma nested_frame: "frame s = frame s' \<Longrightarrow> nested s = nested s'"
  by (simp add: nested_def descendants_frame[of s s'])

lemma wrapper_in_form:
  "w \<in> set (querySelectorAll s form sel) \<Longrightarrow> w \<in> set (descendants s form)"
  by (simp add: querySelectorAll_def)

lemma shown_class_in_form:
  assumes n: "nested s" and w: "w \<in> set (descendants s form)" and e: "error_class_shown s w"
  shows "\<exists>j \<in> set (descendants s form). ''is-error'' \<in> classList (s ! j)"
proof -
  from e obtain input where q: "querySelector s w sel_field = Some input"
    and c: "''is-error'' \<in> classList (s ! error_target s w input)"
    by (auto simp: error_class_shown_def split: option.splits)
  have "error_target s w input \<in> set (descendants s w)" using q by (rule error_target_in_wrapper)
  moreover have "set (descendants s w) \<subseteq> set (descendants s form)"
    using n w unfolding nested_def by blast
  ultimately show ?thesis using c by blast
qed

text \<open>
  C2, as amended. On a submission attempt over a form whose wrappers do not share
  elements, in a document that is a tree and where no element that holds an error text
  has a child element or is a text area: if the rule of at least one field fails, the default action of the event is prevented
  and its propagation stopped, every wrapper whose rule fails shows its error (the error
  class, and the label if it has one), and the handler scrolls to the first element of
  the form, in document order, that carries the error class; if every field passes, the
  handler does nothing to the event and does not scroll.
\<close>

theorem submission_attempt:
  assumes "nested s" and "separate_wrappers s form" and "holders_plain s"
  shows
    "((\<exists>w \<in> set (querySelectorAll s form (sel_class ''input-wrapper'')).
         \<not> fst (validateInput s w True True)) \<longrightarrow>
        defaultPrevented (fst (snd (on_submit s form)))
      \<and> propagationStopped (fst (snd (on_submit s form)))
      \<and> (\<forall>w \<in> set (querySelectorAll s form (sel_class ''input-wrapper'')).
            \<not> fst (validateInput s w True True) \<longrightarrow> shows_error (fst (on_submit s form)) w)
      \<and> (\<exists>t. snd (snd (on_submit s form)) = Some t
            \<and> t \<in> set (descendants (fst (on_submit s form)) form)
            \<and> ''is-error'' \<in> classList (fst (on_submit s form) ! t)
            \<and> (\<forall>k \<in> set (descendants (fst (on_submit s form)) form).
                  k < t \<longrightarrow> ''is-error'' \<notin> classList (fst (on_submit s form) ! k))))
   \<and> ((\<forall>w \<in> set (querySelectorAll s form (sel_class ''input-wrapper'')).
         fst (validateInput s w True True)) \<longrightarrow>
        \<not> defaultPrevented (fst (snd (on_submit s form)))
      \<and> \<not> propagationStopped (fst (snd (on_submit s form)))
      \<and> snd (snd (on_submit s form)) = None)"
proof (intro conjI impI)
  let ?ws = "querySelectorAll s form (sel_class ''input-wrapper'')"
  let ?s' = "snd (validateForm s form True True)"
  assume "\<forall>w \<in> set ?ws. fst (validateInput s w True True)"
  then have v: "form_verdict s form"
    by (simp add: form_verdict_def list_all_iff fst_validateInput)
  show "\<not> defaultPrevented (fst (snd (on_submit s form)))"
    and "\<not> propagationStopped (fst (snd (on_submit s form)))"
    and "snd (snd (on_submit s form)) = None"
    using v by (simp_all add: on_submit_eq)
next
  let ?ws = "querySelectorAll s form (sel_class ''input-wrapper'')"
  let ?s' = "snd (validateForm s form True True)"
  assume "\<exists>w \<in> set ?ws. \<not> fst (validateInput s w True True)"
  then obtain w0 where w0: "w0 \<in> set ?ws" "\<not> wrapper_verdict s w0"
    by (auto simp: fst_validateInput)
  then have v: "\<not> form_verdict s form"
    by (auto simp: form_verdict_def list_all_iff)
  have st: "fst (on_submit s form) = ?s'" using v by (simp add: on_submit_eq)
  have sc: "snd (snd (on_submit s form)) = querySelector ?s' form (sel_class ''is-error'')"
    using v by (simp add: on_submit_eq)
  show "defaultPrevented (fst (snd (on_submit s form)))"
    and "propagationStopped (fst (snd (on_submit s form)))"
    using v by (simp_all add: on_submit_eq)
  show "\<forall>w \<in> set ?ws. \<not> fst (validateInput s w True True) \<longrightarrow>
          shows_error (fst (on_submit s form)) w"
    unfolding st fst_validateInput using validateForm_shows[OF assms(2) _ _ assms(3)] by blast
  have f: "frame ?s' = frame s" using assms(3) by (rule frame_validateForm)
  have d: "descendants ?s' r = descendants s r" for r using f by (rule descendants_frame)
  have "shows_error ?s' w0" using assms(2) w0 assms(3) by (rule validateForm_shows)
  then have "error_class_shown ?s' w0" by (simp add: shows_error_def)
  moreover have "nested ?s'" using assms(1) nested_frame[OF f] by simp
  moreover have "w0 \<in> set (descendants ?s' form)"
    using wrapper_in_form[OF w0(1)] d by simp
  ultimately obtain j where "j \<in> set (descendants ?s' form)" "''is-error'' \<in> classList (?s' ! j)"
    using shown_class_in_form by blast
  then have "\<exists>t. querySelector ?s' form (sel_class ''is-error'') = Some t"
    by (intro querySelector_exists[of j]) (simp_all add: sel_class_def)
  then obtain t where t: "querySelector ?s' form (sel_class ''is-error'') = Some t" by blast
  from querySelector_first[OF t]
  show "\<exists>t. snd (snd (on_submit s form)) = Some t
            \<and> t \<in> set (descendants (fst (on_submit s form)) form)
            \<and> ''is-error'' \<in> classList (fst (on_submit s form) ! t)
            \<and> (\<forall>k \<in> set (descendants (fst (on_submit s form)) form).
                  k < t \<longrightarrow> ''is-error'' \<notin> classList (fst (on_submit s form) ! k))"
    unfolding st sc t by (simp add: sel_class_def)
qed

subsection \<open>The example forms\<close>

lemma nested_bounded:
  "nested s = (\<forall>r < length s. \<forall>j \<in> set (descendants s r).
                 set (descendants s j) \<subseteq> set (descendants s r))"
proof -
  have "descendants s r = []" if "\<not> r < length s" for r
    using that by (simp add: descendants_def)
  then show ?thesis unfolding nested_def by (metis empty_iff empty_set)
qed

lemma descendants_intact:
  assumes "list_all (\<lambda>e. \<not> removed e) s"
  shows "descendants s r =
     (if r < length s then [Suc r ..< min (length s) (Suc (r + nsub (s ! r)))] else [])"
proof -
  have "attached s r i" if "i < length s" for i
  proof -
    have "\<not> removed (s ! j)" if "j \<in> set [Suc r ..< Suc i]" for j
    proof -
      from that \<open>i < length s\<close> have "j < length s" by auto
      then show ?thesis using assms by (simp add: list_all_length)
    qed
    then show ?thesis unfolding attached_def list_ex_iff by blast
  qed
  then have "filter (attached s r) [Suc r ..< min (length s) (Suc (r + nsub (s ! r)))]
             = [Suc r ..< min (length s) (Suc (r + nsub (s ! r)))]"
    by (intro filter_True) simp
  then show ?thesis by (simp add: descendants_def)
qed

lemma ex_form_nested: "nested ex_form"
  unfolding nested_bounded
  by (auto simp add: ex_defs descendants_intact All_less_Suc simp del: set_upt)

lemma ex_form_separate: "separate_wrappers ex_form 0"
  unfolding separate_wrappers_def ex_form_wrappers
  by (simp add: ex_defs descendants_intact del: set_upt)

lemma ex_form_filled_nested: "nested ex_form_filled"
  unfolding nested_bounded
  by (auto simp add: ex_defs descendants_intact All_less_Suc simp del: set_upt)

lemma ex_form_filled_wrappers:
  "querySelectorAll ex_form_filled 0 (sel_class ''input-wrapper'') = [1, 5]"
  by (simp add: ex_defs query_defs)

lemma ex_form_filled_separate: "separate_wrappers ex_form_filled 0"
  unfolding separate_wrappers_def ex_form_filled_wrappers
  by (simp add: ex_defs descendants_intact del: set_upt)

lemma ex_form_filled_holders: "holders_plain ex_form_filled"
  by (simp add: holders_plain_def ex_defs query_defs read_defs)

lemma ex_form_filled_passes:
  "\<forall>w \<in> set (querySelectorAll ex_form_filled 0 (sel_class ''input-wrapper'')).
     fst (validateInput ex_form_filled w True True)"
  unfolding ex_form_filled_wrappers fst_validateInput wrapper_verdict_def
  by (simp add: field_verdict_unfold ex_defs query_defs read_defs rule_defs)

theorem submission_attempt_witness:
  "nested ex_form \<and> separate_wrappers ex_form 0 \<and> holders_plain ex_form
   \<and> 1 \<in> set (querySelectorAll ex_form 0 (sel_class ''input-wrapper''))
   \<and> \<not> fst (validateInput ex_form 1 True True)
   \<and> defaultPrevented (fst (snd (on_submit ex_form 0)))
   \<and> propagationStopped (fst (snd (on_submit ex_form 0)))
   \<and> shows_error (fst (on_submit ex_form 0)) 1
   \<and> (\<exists>t. snd (snd (on_submit ex_form 0)) = Some t
          \<and> ''is-error'' \<in> classList (fst (on_submit ex_form 0) ! t))
   \<and> nested ex_form_filled \<and> separate_wrappers ex_form_filled 0
   \<and> holders_plain ex_form_filled
   \<and> \<not> defaultPrevented (fst (snd (on_submit ex_form_filled 0)))
   \<and> \<not> propagationStopped (fst (snd (on_submit ex_form_filled 0)))
   \<and> snd (snd (on_submit ex_form_filled 0)) = None"
proof -
  have m: "1 \<in> set (querySelectorAll ex_form 0 (sel_class ''input-wrapper''))"
    by (simp add: ex_form_wrappers)
  note a = submission_attempt[OF ex_form_nested ex_form_separate ex_form_holders]
  note b = submission_attempt[OF ex_form_filled_nested ex_form_filled_separate
      ex_form_filled_holders]
  from m ex_form_fails[of True True]
  have e: "\<exists>w \<in> set (querySelectorAll ex_form 0 (sel_class ''input-wrapper'')).
             \<not> fst (validateInput ex_form w True True)"
    by blast
  from a e m ex_form_fails[of True True]
  have a': "defaultPrevented (fst (snd (on_submit ex_form 0)))"
    "propagationStopped (fst (snd (on_submit ex_form 0)))"
    "shows_error (fst (on_submit ex_form 0)) 1"
    "\<exists>t. snd (snd (on_submit ex_form 0)) = Some t
          \<and> ''is-error'' \<in> classList (fst (on_submit ex_form 0) ! t)"
    by blast+
  from b ex_form_filled_passes
  have b': "\<not> defaultPrevented (fst (snd (on_submit ex_form_filled 0)))"
    "\<not> propagationStopped (fst (snd (on_submit ex_form_filled 0)))"
    "snd (snd (on_submit ex_form_filled 0)) = None"
    by blast+
  from a' b' m ex_form_fails[of True True] ex_form_nested ex_form_separate ex_form_holders
    ex_form_filled_nested ex_form_filled_separate ex_form_filled_holders
  show ?thesis by blast
qed

lemma ex_wrapper_in_wrapper_submitted:
  "querySelectorAll ex_wrapper_in_wrapper 0 (sel_class ''input-wrapper'') = [1, 3]
   \<and> \<not> fst (validateInput ex_wrapper_in_wrapper 1 True True)
   \<and> querySelector ex_wrapper_in_wrapper 1 (sel_class ''input-error-label'') = Some 5
   \<and> defaultPrevented (fst (snd (on_submit ex_wrapper_in_wrapper 0)))
   \<and> querySelector (fst (on_submit ex_wrapper_in_wrapper 0)) 1 (sel_class ''input-error-label'')
       = Some 5
   \<and> attributes (fst (on_submit ex_wrapper_in_wrapper 0) ! 5) ''style''
       = Some (utf16 ''display: none;'')
   \<and> \<not> shows_error (fst (on_submit ex_wrapper_in_wrapper 0)) 1"
  by (simp add: shows_error_def error_class_shown_def error_label_shown_def error_target_def
      run_defs ex_defs query_defs read_defs write_defs rule_defs)

lemma ex_field_in_holder_submitted:
  "querySelectorAll ex_field_in_holder 0 (sel_class ''input-wrapper'') = [1]
   \<and> \<not> fst (validateInput ex_field_in_holder 1 True True)
   \<and> defaultPrevented (fst (snd (on_submit ex_field_in_holder 0)))
   \<and> snd (snd (on_submit ex_field_in_holder 0)) = None
   \<and> querySelector (fst (on_submit ex_field_in_holder 0)) 0 (sel_class ''is-error'') = None
   \<and> \<not> shows_error (fst (on_submit ex_field_in_holder 0)) 1"
  by (simp add: shows_error_def error_class_shown_def error_label_shown_def error_target_def
      run_defs ex_defs query_defs read_defs write_defs rule_defs)

text \<open>
  C2 as stated fails. In the form with a wrapper inside a wrapper the field of the
  outer wrapper fails its rule and the submission is cancelled, but the pass over the
  inner wrapper, whose field passes, hides the error label (element 5) that the pass
  over the outer wrapper has shown: the error of the failing field is not shown after
  the attempt. In the form whose field is marked up inside the holder of its error
  text the field fails its rule and the submission is cancelled, but showing the error
  removes the field from the form: no element of the form carries the error class, and
  the handler does not scroll.
\<close>

theorem submission_attempt_counterexample:
  "querySelectorAll ex_wrapper_in_wrapper 0 (sel_class ''input-wrapper'') = [1, 3]
   \<and> \<not> fst (validateInput ex_wrapper_in_wrapper 1 True True)
   \<and> querySelector ex_wrapper_in_wrapper 1 (sel_class ''input-error-label'') = Some 5
   \<and> defaultPrevented (fst (snd (on_submit ex_wrapper_in_wrapper 0)))
   \<and> querySelector (fst (on_submit ex_wrapper_in_wrapper 0)) 1 (sel_class ''input-error-label'')
       = Some 5
   \<and> attributes (fst (on_submit ex_wrapper_in_wrapper 0) ! 5) ''style''
       = Some (utf16 ''display: none;'')
   \<and> \<not> shows_error (fst (on_submit ex_wrapper_in_wrapper 0)) 1
   \<and> querySelectorAll ex_field_in_holder 0 (sel_class ''input-wrapper'') = [1]
   \<and> \<not> fst (validateInput ex_field_in_holder 1 True True)
   \<and> defaultPrevented (fst (snd (on_submit ex_field_in_holder 0)))
   \<and> snd (snd (on_submit ex_field_in_holder 0)) = None
   \<and> querySelector (fst (on_submit ex_field_in_holder 0)) 0 (sel_class ''is-error'') = None
   \<and> \<not> shows_error (fst (on_submit ex_field_in_holder 0)) 1"
  using ex_wrapper_in_wrapper_submitted ex_field_in_holder_submitted by blast

end
